theory Spec2Isabelle
  imports Complex_Main "HOL-Library.Multiset" "HOL-Library.Sublist"
begin

section \<open>Values shared by the proxy route and the dashboard\<close>

text \<open>
  JavaScript numbers that the code only stores, compares or takes the absolute value of are
  modelled as rationals: every finite double is a rational, and comparison and \<open>Math.abs\<close>
  are exact on doubles. Strings are lists of characters.
\<close>

type_synonym number = rat

text \<open>
  A JSON value as \<open>JSON.parse\<close> and \<open>req.json()\<close> produce it. An object is the list of
  its own properties in insertion order; \<open>lookup\<close> reads a property, and \<open>None\<close> stands
  for \<open>undefined\<close>.
\<close>

datatype json =
    JNull
  | JBool bool
  | JNum number
  | JStr string
  | JArr "json list"
  | JObj "(string \<times> json) list"

definition lookup :: "(string \<times> json) list \<Rightarrow> string \<Rightarrow> json option" where
  "lookup kvs k = map_of kvs k"

text \<open>
  \<open>xs.slice(-n)\<close> for \<open>n > 0\<close>: the start index is \<open>max (length - n) 0\<close>, so the last
  \<open>n\<close> elements are kept, or the whole array when it is shorter.
\<close>

definition slice_last :: "nat \<Rightarrow> 'a list \<Rightarrow> 'a list" where
  "slice_last n xs = drop (length xs - n) xs"

text \<open>\<open>xs.slice(0, n)\<close>: the first \<open>n\<close> elements.\<close>

definition slice_first :: "nat \<Rightarrow> 'a list \<Rightarrow> 'a list" where
  "slice_first n xs = take n xs"

section \<open>Market data types (types/pi42.ts)\<close>

record Pi42AggTrade =
  tr_e :: string
  tr_E :: number
  tr_a :: number
  tr_s :: string
  tr_p :: string
  tr_q :: string
  tr_f :: number
  tr_l :: number
  tr_T :: number
  tr_m :: bool

record Pi42Kline =
  startTime :: string
  open' :: string
  high :: string
  low :: string
  close :: string
  endTime :: string
  volume :: string

record Pi42Ticker =
  tk_e :: string
  tk_E :: number
  tk_s :: string
  tk_p :: string
  tk_P :: string
  tk_w :: string
  tk_c :: string
  tk_Q :: string
  tk_o :: string
  tk_h :: string
  tk_l :: string
  tk_v :: string
  tk_q :: string
  tk_O :: number
  tk_C :: number
  tk_F :: number
  tk_L :: number
  tk_n :: number

record Pi42DepthResponse =
  dp_e :: string
  dp_E :: number
  dp_T :: number
  dp_s :: string
  dp_U :: number
  dp_u :: number
  dp_pu :: number
  dp_b :: "(string \<times> string) list"
  dp_a :: "(string \<times> string) list"

section \<open>Realtime handlers of the dashboard\<close>

text \<open>
  \<open>handleTrade\<close>: \<open>setTrades((prev) => [...prev.slice(-180), payload])\<close>. The previous list
  is cut to its last 180 entries first, and the payload is put behind them.
\<close>

definition handleTrade :: "Pi42AggTrade list \<Rightarrow> Pi42AggTrade \<Rightarrow> Pi42AggTrade list" where
  "handleTrade prev payload = slice_last 180 prev @ [payload]"

text \<open>
  \<open>next.findIndex((item) => item.startTime === t)\<close>: the first index whose entry has the
  start time, \<open>None\<close> for the source's \<open>-1\<close>.
\<close>

fun findIndex :: "('a \<Rightarrow> bool) \<Rightarrow> 'a list \<Rightarrow> nat option" where
  "findIndex p [] = None"
| "findIndex p (x # xs) =
     (if p x then Some 0 else map_option Suc (findIndex p xs))"

text \<open>
  The updater of \<open>handleKline\<close>: copy, replace at the found index or push, then
  \<open>slice(-400)\<close>.
\<close>

definition upsertKline :: "Pi42Kline list \<Rightarrow> Pi42Kline \<Rightarrow> Pi42Kline list" where
  "upsertKline prev k =
     (let next = prev in
      let next' = (case findIndex (\<lambda>item. startTime item = startTime k) next of
                     Some index \<Rightarrow> next[index := k]
                   | None \<Rightarrow> next @ [k])
      in slice_last 400 next')"

text \<open>
  \<open>handleKline\<close>: a payload without \<open>k\<close> returns before the state is touched.
\<close>

definition handleKline :: "Pi42Kline list \<Rightarrow> Pi42Kline option \<Rightarrow> Pi42Kline list" where
  "handleKline prev payload_k =
     (case payload_k of None \<Rightarrow> prev | Some k \<Rightarrow> upsertKline prev k)"

section \<open>Snapshot aggregation (the page's \<open>summarise\<close>)\<close>

text \<open>
  The fields of a contract that the page and the dashboard read; a market-stats entry holds
  the exchange's strings; a combined entry holds the numbers \<open>toNumber\<close> made of them,
  \<open>None\<close> where \<open>toNumber\<close> gave \<open>undefined\<close> (absent or not finite).
\<close>

record Pi42Contract =
  ct_name :: string
  ct_contractName :: string
  ct_baseAsset :: string
  ct_quoteAsset :: string
  ct_market :: "string option"
  ct_depthGrouping :: "string list option"

record Pi42MarketInfoEntry =
  mi_lastPrice :: "string option"
  mi_marketPrice :: "string option"
  mi_priceChangePercent :: "string option"
  mi_baseAssetVolume :: "string option"
  mi_quoteAssetVolume :: "string option"
  mi_upcomingFundingRate :: "string option"

record CombinedContractMetrics =
  contract :: Pi42Contract
  marketStats :: "Pi42MarketInfoEntry option"
  cm_market :: string
  lastPrice :: "number option"
  markPrice :: "number option"
  priceChangePercent :: "number option"
  baseVolume :: "number option"
  quoteVolume :: "number option"
  fundingRateBps :: "number option"

text \<open>
  \<open>Array.prototype.sort\<close> with the comparator \<open>(a, b) => key(b) - key(a)\<close> on finite
  keys: the sort is stable, so the result is the stable arrangement in descending key order.
\<close>

definition js_sort_desc :: "('a \<Rightarrow> number) \<Rightarrow> 'a list \<Rightarrow> 'a list" where
  "js_sort_desc key xs = sort_key (\<lambda>x. - key x) xs"

text \<open>
  \<open>computeCombinedContracts\<close>: keep the entries that have market stats, sort by
  \<open>quoteVolume ?? 0\<close> descending.
\<close>

definition computeCombinedContracts ::
  "CombinedContractMetrics list \<Rightarrow> CombinedContractMetrics list" where
  "computeCombinedContracts contracts =
     js_sort_desc (\<lambda>item. case quoteVolume item of Some v \<Rightarrow> v | None \<Rightarrow> 0)
       (filter (\<lambda>item. marketStats item \<noteq> None) contracts)"

text \<open>\<open>Math.abs(item.priceChangePercent ?? 0)\<close>, the key of the top-movers comparator.\<close>

definition absChange :: "CombinedContractMetrics \<Rightarrow> number" where
  "absChange item = \<bar>case priceChangePercent item of Some p \<Rightarrow> p | None \<Rightarrow> 0\<bar>"

text \<open>
  The \<open>topMovers\<close> field of \<open>summarise\<close>: copy the list, keep the entries whose
  \<open>priceChangePercent\<close> is a number, sort by the absolute change descending, take the first
  six. (The totals and the average of \<open>summarise\<close> are sums and a quotient of IEEE-754
  doubles, which round; they are not part of this development.)
\<close>

definition topMovers :: "CombinedContractMetrics list \<Rightarrow> CombinedContractMetrics list" where
  "topMovers contracts =
     slice_first 6
       (js_sort_desc absChange
          (filter (\<lambda>item. priceChangePercent item \<noteq> None) contracts))"

text \<open>
  The specification's wording of the same field, for comparison: the first six of the whole
  combined list sorted by the absolute change descending.
\<close>

definition topMovers_spec :: "CombinedContractMetrics list \<Rightarrow> CombinedContractMetrics list" where
  "topMovers_spec contracts = slice_first 6 (js_sort_desc absChange contracts)"

section \<open>Market bundle fetch of the dashboard\<close>

text \<open>
  The payload the dashboard posts to the proxy route through \<open>proxyRequest\<close>; a field
  that the caller leaves out is \<open>None\<close>.
\<close>

datatype HttpMethod = GET | POST | PUT | DELETE | PATCH

datatype Target = Public | Private

record ProxyPayload =
  pl_method :: HttpMethod
  pl_path :: string
  pl_target :: "Target option"
  pl_query :: "json option"
  pl_body :: "json option"
  pl_headers :: "json option"

text \<open>
  A settled promise. \<open>proxyRequest<T>\<close> resolves to \<open>T | null\<close> or rejects with an
  error message; the response types of the bundle wrap their payload in a \<open>data\<close> field,
  which the code reads defensively (\<open>?.data\<close>). The generic function is used at four
  result types, one field of \<open>proxyRequest_at\<close> each.
\<close>

datatype 'a settled = Fulfilled 'a | Rejected string

datatype 'a envelope = Envelope (data_of: "'a option")

record proxyRequest_at =
  proxyTicker :: "ProxyPayload \<Rightarrow> Pi42Ticker envelope option settled"
  proxyDepth :: "ProxyPayload \<Rightarrow> Pi42DepthResponse envelope option settled"
  proxyTrades :: "ProxyPayload \<Rightarrow> Pi42AggTrade list envelope option settled"
  proxyKlines :: "ProxyPayload \<Rightarrow> Pi42Kline list option settled"

record MarketBundle =
  bundle_ticker :: "Pi42Ticker option"
  bundle_depth :: "Pi42DepthResponse option"
  bundle_trades :: "Pi42AggTrade list"
  bundle_klines :: "Pi42Kline list"

text \<open>The four requests of \<open>fetchMarketBundle\<close>.\<close>

definition request :: "HttpMethod \<Rightarrow> string \<Rightarrow> json option \<Rightarrow> ProxyPayload" where
  "request m p b =
     \<lparr>pl_method = m, pl_path = p, pl_target = None, pl_query = None, pl_body = b,
      pl_headers = None\<rparr>"

definition tickerRequest :: "string \<Rightarrow> ProxyPayload" where
  "tickerRequest symbol = request GET (''/v1/market/ticker24Hr/'' @ symbol) None"

definition depthRequest :: "string \<Rightarrow> ProxyPayload" where
  "depthRequest symbol = request GET (''/v1/market/depth/'' @ symbol) None"

definition tradesRequest :: "string \<Rightarrow> ProxyPayload" where
  "tradesRequest symbol = request GET (''/v1/market/aggTrade/'' @ symbol) None"

definition klinesRequest :: "string \<Rightarrow> string \<Rightarrow> ProxyPayload" where
  "klinesRequest symbol interval =
     request POST ''/v1/market/klines''
       (Some (JObj [(''pair'', JStr symbol), (''interval'', JStr interval),
                    (''limit'', JNum 400)]))"

text \<open>
  \<open>fetchMarketBundle\<close>: all four requests are issued; \<open>Promise.all\<close> fulfils when all
  four do and rejects as soon as one rejects, with the reason of the promise that rejects
  first in time, which \<open>race\<close> picks among the rejection reasons. The result is the list of
  requests issued and the settled bundle.
\<close>

definition rejections :: "'a settled \<Rightarrow> string list" where
  "rejections r = (case r of Fulfilled _ \<Rightarrow> [] | Rejected e \<Rightarrow> [e])"

definition fetchMarketBundle ::
  "proxyRequest_at \<Rightarrow> (string list \<Rightarrow> string) \<Rightarrow> string \<Rightarrow> string
     \<Rightarrow> ProxyPayload list \<times> MarketBundle settled" where
  "fetchMarketBundle P race symbol interval =
     (let r1 = proxyTicker P (tickerRequest symbol);
          r2 = proxyDepth P (depthRequest symbol);
          r3 = proxyTrades P (tradesRequest symbol);
          r4 = proxyKlines P (klinesRequest symbol interval);
          rejected = Rejected (race (rejections r1 @ rejections r2 @ rejections r3 @ rejections r4))
      in ([tickerRequest symbol, depthRequest symbol, tradesRequest symbol,
           klinesRequest symbol interval],
          (case r1 of Rejected _ \<Rightarrow> rejected | Fulfilled ticker \<Rightarrow>
           case r2 of Rejected _ \<Rightarrow> rejected | Fulfilled depth \<Rightarrow>
           case r3 of Rejected _ \<Rightarrow> rejected | Fulfilled trades \<Rightarrow>
           case r4 of Rejected _ \<Rightarrow> rejected | Fulfilled klines \<Rightarrow>
             Fulfilled
               \<lparr>bundle_ticker = (case ticker of None \<Rightarrow> None | Some t \<Rightarrow> data_of t),
                bundle_depth = (case depth of None \<Rightarrow> None | Some d \<Rightarrow> data_of d),
                bundle_trades =
                  (case trades of None \<Rightarrow> []
                   | Some t \<Rightarrow> (case data_of t of None \<Rightarrow> [] | Some xs \<Rightarrow> slice_last 120 xs)),
                bundle_klines = (case klines of None \<Rightarrow> [] | Some ks \<Rightarrow> ks)\<rparr>)))"

text \<open>
  The dashboard's market state and the effect that refreshes it (the \<open>useEffect\<close> on
  \<open>[contractName, interval]\<close>): requests issued, console output, state after the promise
  has settled. \<open>cancelled\<close> is the flag the effect's cleanup sets.
\<close>

record DashboardState =
  st_ticker :: "Pi42Ticker option"
  st_depth :: "Pi42DepthResponse option"
  st_trades :: "Pi42AggTrade list"
  st_klines :: "Pi42Kline list"
  st_loading :: bool

definition refreshBundle ::
  "proxyRequest_at \<Rightarrow> (string list \<Rightarrow> string) \<Rightarrow> bool \<Rightarrow> string \<Rightarrow> string
     \<Rightarrow> DashboardState \<Rightarrow> ProxyPayload list \<times> string list \<times> DashboardState" where
  "refreshBundle P race cancelled contractName interval s =
     (if contractName = [] then ([], [], s)
      else
        (let (requests, outcome) = fetchMarketBundle P race contractName interval;
             finally = (\<lambda>s'. if \<not> cancelled then s'\<lparr>st_loading := False\<rparr> else s')
         in case outcome of
              Fulfilled bundle \<Rightarrow>
                (requests, [],
                 finally
                   (if cancelled then s
                    else s\<lparr>st_ticker := bundle_ticker bundle, st_depth := bundle_depth bundle,
                           st_trades := bundle_trades bundle,
                           st_klines := bundle_klines bundle\<rparr>))
            | Rejected error \<Rightarrow>
                (requests, [''Failed to refresh bundle '' @ error], finally s)))"

section \<open>API Explorer submission\<close>

text \<open>
  The three free-text fields of the explorer are tested with \<open>s.trim() === ""\<close>, which
  depends on the characters of the string, so these fields are kept as lists of UTF-16 code
  units. \<open>units\<close> gives the code units of a string of ASCII characters.
\<close>

type_synonym code_unit = nat

type_synonym js_text = "code_unit list"

definition units :: "string \<Rightarrow> js_text" where
  "units s = map of_char s"

text \<open>
  The code units \<open>String.prototype.trim\<close> strips: the WhiteSpace of ECMAScript (tab,
  vertical tab, form feed, U+FEFF and the space separators U+0020, U+00A0, U+1680, U+2000 to
  U+200A, U+202F, U+205F, U+3000) and its LineTerminators (line feed, carriage return,
  U+2028, U+2029). All of them are single code units.
\<close>

definition isWhiteSpace :: "code_unit \<Rightarrow> bool" where
  "isWhiteSpace c =
     (c \<in> set [9, 10, 11, 12, 13, 32, 160, 5760, 8232, 8233, 8239, 8287, 12288, 65279]
      \<or> (8192 \<le> c \<and> c \<le> 8202))"

definition trim :: "js_text \<Rightarrow> js_text" where
  "trim s = rev (dropWhile isWhiteSpace (rev (dropWhile isWhiteSpace s)))"

text \<open>The form state of the explorer (its \<open>useState\<close> cells).\<close>

record ExplorerState =
  ex_method :: HttpMethod
  ex_path :: string
  ex_target :: Target
  ex_query :: js_text
  ex_body :: js_text
  ex_headers :: js_text
  ex_response :: string
  ex_isLoading :: bool
  ex_error :: "string option"

text \<open>
  What \<open>execute\<close> calls: \<open>JSON.parse\<close> (\<open>Inl\<close> the message of the SyntaxError it
  throws), \<open>JSON.stringify(res, null, 2)\<close>, and \<open>proxyRequest<unknown>\<close>.
\<close>

record ExplorerEnv =
  JSON_parse :: "js_text \<Rightarrow> string + json"
  JSON_stringify :: "json \<Rightarrow> string"
  proxyRequest :: "ProxyPayload \<Rightarrow> json settled"

text \<open>
  The three constants \<open>execute\<close> computes before the request, each \<open>Inl\<close> when its
  \<open>JSON.parse\<close> throws. The body is \<open>undefined\<close> (\<open>None\<close>) when the text is blank or
  the method is GET, and is parsed otherwise.
\<close>

definition queryPayload :: "ExplorerEnv \<Rightarrow> ExplorerState \<Rightarrow> string + json" where
  "queryPayload env st =
     (if trim (ex_query st) = [] then Inr (JObj []) else JSON_parse env (ex_query st))"

definition bodyPayload :: "ExplorerEnv \<Rightarrow> ExplorerState \<Rightarrow> string + json option" where
  "bodyPayload env st =
     (if trim (ex_body st) = [] \<or> ex_method st = GET then Inr None
      else map_sum id Some (JSON_parse env (ex_body st)))"

definition headersPayload :: "ExplorerEnv \<Rightarrow> ExplorerState \<Rightarrow> string + json" where
  "headersPayload env st =
     (if trim (ex_headers st) = [] then Inr (JObj []) else JSON_parse env (ex_headers st))"

text \<open>The object literal passed to \<open>proxyRequest\<close>.\<close>

definition execute_payload :: "ExplorerState \<Rightarrow> json \<Rightarrow> json option \<Rightarrow> json \<Rightarrow> ProxyPayload" where
  "execute_payload st q b h =
     \<lparr>pl_method = ex_method st, pl_path = ex_path st, pl_target = Some (ex_target st),
      pl_query = Some q, pl_body = b, pl_headers = Some h\<rparr>"

text \<open>
  \<open>execute\<close>: the requests sent to the proxy and the state after the \<open>finally\<close> block.
  A throw in the \<open>try\<close> block (a parse error, a rejected request) sets \<open>error\<close> and skips
  what follows it.
\<close>

definition execute :: "ExplorerEnv \<Rightarrow> ExplorerState \<Rightarrow> ProxyPayload list \<times> ExplorerState" where
  "execute env st =
     (let st1 = st\<lparr>ex_isLoading := True, ex_error := None\<rparr>;
          finally = (\<lambda>s. s\<lparr>ex_isLoading := False\<rparr>);
          caught = (\<lambda>msg. finally (st1\<lparr>ex_error := Some msg\<rparr>))
      in case queryPayload env st of
           Inl msg \<Rightarrow> ([], caught msg)
         | Inr q \<Rightarrow>
        (case bodyPayload env st of
           Inl msg \<Rightarrow> ([], caught msg)
         | Inr b \<Rightarrow>
        (case headersPayload env st of
           Inl msg \<Rightarrow> ([], caught msg)
         | Inr h \<Rightarrow>
        (case proxyRequest env (execute_payload st q b h) of
           Rejected msg \<Rightarrow> ([execute_payload st q b h], caught msg)
         | Fulfilled res \<Rightarrow>
             ([execute_payload st q b h],
              finally (st1\<lparr>ex_response := JSON_stringify env res\<rparr>))))))"

section \<open>Realtime feed subscriptions of the dashboard\<close>

text \<open>
  \<open>toLowerCase\<close> and \<open>replace(/\s+/g, "")\<close> are string functions of the JavaScript
  platform, both aware of Unicode (case mapping, white space beyond ASCII). The model takes
  them as given: every result below holds for whatever these two functions compute.
\<close>

record StringOps =
  toLowerCase :: "string \<Rightarrow> string"
  removeWhiteSpace :: "string \<Rightarrow> string"

text \<open>
  The calls the dashboard makes on the socket, in order. A handler is a closure made by one
  run of the subscription effect; it is named by the number of that run, so that
  \<open>socket.off(event, handler)\<close> detaches exactly the handler that run attached.
\<close>

datatype socket_call =
    Emit string "string list"
  | On string nat
  | Off string nat

text \<open>
  The part of the dashboard that the subscription effect depends on: the selection, the
  socket reference (set by the mount effect, which runs before the subscription effect), the
  dependency array of the effect's last run, the teardown that run returned (its topics and
  its handlers), the number of runs so far, and the socket calls made so far.
\<close>

type_synonym effect_deps = "string \<times> string \<times> string"

record FeedState =
  fd_selectedSymbol :: string
  fd_interval :: string
  fd_socketRef :: bool
  fd_deps :: "effect_deps option"
  fd_cleanup :: "(string list \<times> nat) option"
  fd_runs :: nat
  fd_calls :: "socket_call list"

text \<open>
  The values derived during render: the selected contract (falling back to the first one),
  its name, and the depth grouping of the topic (first configured bucket with white space
  removed, \<open>0.1\<close> when there is none).
\<close>

definition selectedContract ::
  "CombinedContractMetrics list \<Rightarrow> string \<Rightarrow> CombinedContractMetrics option" where
  "selectedContract contracts selectedSymbol =
     (case find (\<lambda>item. ct_name (contract item) = selectedSymbol) contracts of
        Some item \<Rightarrow> Some item
      | None \<Rightarrow> (case contracts of [] \<Rightarrow> None | item # _ \<Rightarrow> Some item))"

definition contractName :: "CombinedContractMetrics list \<Rightarrow> string \<Rightarrow> string" where
  "contractName contracts selectedSymbol =
     (case selectedContract contracts selectedSymbol of
        None \<Rightarrow> []
      | Some item \<Rightarrow> ct_name (contract item))"

definition depthGroupingValue ::
  "StringOps \<Rightarrow> CombinedContractMetrics list \<Rightarrow> string \<Rightarrow> string" where
  "depthGroupingValue P contracts selectedSymbol =
     (case selectedContract contracts selectedSymbol of
        None \<Rightarrow> ''0.1''
      | Some item \<Rightarrow>
          (case ct_depthGrouping (contract item) of
             None \<Rightarrow> ''0.1''
           | Some [] \<Rightarrow> ''0.1''
           | Some (g # _) \<Rightarrow> removeWhiteSpace P g))"

text \<open>
  The dependency array of the subscription effect for a selected symbol and interval
  (\<open>lowerSymbol\<close>, \<open>depthGroupingValue\<close>, \<open>interval\<close>), and the one of a state.
\<close>

definition deps_for ::
  "StringOps \<Rightarrow> CombinedContractMetrics list \<Rightarrow> string \<times> string \<Rightarrow> effect_deps" where
  "deps_for P contracts selection =
     (case selection of (selectedSymbol, interval) \<Rightarrow>
        (toLowerCase P (contractName contracts selectedSymbol),
         depthGroupingValue P contracts selectedSymbol,
         interval))"

definition deps_of :: "StringOps \<Rightarrow> CombinedContractMetrics list \<Rightarrow> FeedState \<Rightarrow> effect_deps" where
  "deps_of P contracts s = deps_for P contracts (fd_selectedSymbol s, fd_interval s)"

definition topics :: "effect_deps \<Rightarrow> string list" where
  "topics d =
     (case d of (lowerSymbol, grouping, interval) \<Rightarrow>
        [lowerSymbol @ ''@depth_'' @ grouping,
         lowerSymbol @ ''@aggTrade'',
         lowerSymbol @ ''@ticker'',
         lowerSymbol @ ''@kline_'' @ interval])"

text \<open>
  The body of the subscription effect and the teardown it returns. The effect returns early,
  without a teardown, when there is no socket or no symbol.
\<close>

definition attach :: "nat \<Rightarrow> socket_call list" where
  "attach h = [On ''depthUpdate'' h, On ''aggTrade'' h, On ''24hrTicker'' h, On ''kline'' h]"

definition detach :: "nat \<Rightarrow> socket_call list" where
  "detach h = [Off ''depthUpdate'' h, Off ''aggTrade'' h, Off ''24hrTicker'' h, Off ''kline'' h]"

definition subscribeEffect :: "effect_deps \<Rightarrow> FeedState \<Rightarrow> FeedState" where
  "subscribeEffect d s =
     (if \<not> fd_socketRef s \<or> fst d = [] then s\<lparr>fd_cleanup := None\<rparr>
      else s\<lparr>fd_calls := fd_calls s @ Emit ''subscribe'' (topics d) # attach (fd_runs s),
             fd_cleanup := Some (topics d, fd_runs s),
             fd_runs := Suc (fd_runs s)\<rparr>)"

definition runCleanup :: "FeedState \<Rightarrow> FeedState" where
  "runCleanup s =
     (case fd_cleanup s of
        None \<Rightarrow> s
      | Some (ts, h) \<Rightarrow>
          s\<lparr>fd_calls := fd_calls s @ Emit ''unsubscribe'' ts # detach h, fd_cleanup := None\<rparr>)"

text \<open>
  What React does with the effect after a render: nothing when the dependency array is
  unchanged; otherwise the teardown of the previous run, then the effect.
\<close>

definition commitEffects ::
  "StringOps \<Rightarrow> CombinedContractMetrics list \<Rightarrow> FeedState \<Rightarrow> FeedState" where
  "commitEffects P contracts s =
     (let d = deps_of P contracts s
      in if fd_deps s = Some d then s
         else subscribeEffect d ((runCleanup s)\<lparr>fd_deps := Some d\<rparr>))"

text \<open>
  The two selection handlers: a click on the current symbol or interval returns without a
  state change, any other sets the state, and the render that follows commits the effect.
\<close>

datatype ui_event = SelectSymbol string | ChangeInterval string

fun step ::
  "StringOps \<Rightarrow> CombinedContractMetrics list \<Rightarrow> FeedState \<Rightarrow> ui_event \<Rightarrow> FeedState" where
  "step P contracts s (SelectSymbol symbol) =
     (if symbol = fd_selectedSymbol s then s
      else commitEffects P contracts (s\<lparr>fd_selectedSymbol := symbol\<rparr>))"
| "step P contracts s (ChangeInterval v) =
     (if v = fd_interval s then s
      else commitEffects P contracts (s\<lparr>fd_interval := v\<rparr>))"

text \<open>
  Mounting: the initial selection is the snapshot's contract, else the first contract, else
  the empty string; the interval is \<open>1h\<close>; the socket is created and the subscription
  effect runs for the first time.
\<close>

definition mount ::
  "StringOps \<Rightarrow> CombinedContractMetrics list \<Rightarrow> string option \<Rightarrow> FeedState" where
  "mount P contracts initialContract =
     commitEffects P contracts
       \<lparr>fd_selectedSymbol =
          (case initialContract of
             Some c \<Rightarrow> c
           | None \<Rightarrow> (case contracts of [] \<Rightarrow> [] | item # _ \<Rightarrow> ct_name (contract item))),
        fd_interval = ''1h'', fd_socketRef = True, fd_deps = None, fd_cleanup = None,
        fd_runs = 0, fd_calls = []\<rparr>"

text \<open>The dashboard after mounting and a list of clicks.\<close>

definition run ::
  "StringOps \<Rightarrow> CombinedContractMetrics list \<Rightarrow> string option \<Rightarrow> ui_event list \<Rightarrow> FeedState" where
  "run P contracts initialContract events =
     foldl (step P contracts) (mount P contracts initialContract) events"

text \<open>
  The selection the user has made, read off the clicks alone: the initial symbol is the
  snapshot's contract, else the first contract, else empty, the initial interval is
  \<open>1h\<close>, and each click on a symbol or an interval replaces that half of the selection.
  This is what the claim calls the current selection.
\<close>

fun select :: "string \<times> string \<Rightarrow> ui_event \<Rightarrow> string \<times> string" where
  "select (symbol, interval) (SelectSymbol x) = (x, interval)"
| "select (symbol, interval) (ChangeInterval v) = (symbol, v)"

definition selection_after ::
  "CombinedContractMetrics list \<Rightarrow> string option \<Rightarrow> ui_event list \<Rightarrow> string \<times> string" where
  "selection_after contracts initialContract events =
     foldl select
       (case initialContract of
          Some c \<Rightarrow> (c, ''1h'')
        | None \<Rightarrow> (case contracts of
                     [] \<Rightarrow> ([], ''1h'')
                   | item # _ \<Rightarrow> (ct_name (contract item), ''1h'')))
       events"

text \<open>
  Reading the call log: a topic set is active from its \<open>subscribe\<close> until its
  \<open>unsubscribe\<close>, and a handler is attached from its \<open>on\<close> until its \<open>off\<close>.
\<close>

fun apply_subscription :: "string list list \<Rightarrow> socket_call \<Rightarrow> string list list" where
  "apply_subscription active (Emit e ts) =
     (if e = ''subscribe'' then active @ [ts]
      else if e = ''unsubscribe'' then remove1 ts active
      else active)"
| "apply_subscription active (On e h) = active"
| "apply_subscription active (Off e h) = active"

definition subscribed :: "socket_call list \<Rightarrow> string list list" where
  "subscribed calls = foldl apply_subscription [] calls"

fun apply_listener :: "(string \<times> nat) list \<Rightarrow> socket_call \<Rightarrow> (string \<times> nat) list" where
  "apply_listener ls (Emit e ts) = ls"
| "apply_listener ls (On e h) = ls @ [(e, h)]"
| "apply_listener ls (Off e h) = remove1 (e, h) ls"

definition listeners :: "socket_call list \<Rightarrow> (string \<times> nat) list" where
  "listeners calls = foldl apply_listener [] calls"

text \<open>The four listeners one run of the effect attaches.\<close>

definition handlers :: "nat \<Rightarrow> (string \<times> nat) list" where
  "handlers h = [(''depthUpdate'', h), (''aggTrade'', h), (''24hrTicker'', h), (''kline'', h)]"

text \<open>
  The invariant of the feed between events: the teardown that is pending is the one of the
  current dependency array, its topic set is the only active one, its handlers are the only
  ones attached, and no prefix of the call log has more than one active topic set or more
  than four listeners.
\<close>

definition feed_inv :: "FeedState \<Rightarrow> bool" where
  "feed_inv s \<longleftrightarrow>
     fd_socketRef s
     \<and> (case fd_deps s of
          None \<Rightarrow> fd_cleanup s = None
        | Some d \<Rightarrow>
            (if fst d = [] then fd_cleanup s = None
             else map_option fst (fd_cleanup s) = Some (topics d)))
     \<and> subscribed (fd_calls s) = (case fd_cleanup s of None \<Rightarrow> [] | Some (ts, h) \<Rightarrow> [ts])
     \<and> listeners (fd_calls s) = (case fd_cleanup s of None \<Rightarrow> [] | Some (ts, h) \<Rightarrow> handlers h)
     \<and> (\<forall>n \<le> length (fd_calls s).
            length (subscribed (take n (fd_calls s))) \<le> 1
            \<and> length (listeners (take n (fd_calls s))) \<le> 4)"

section \<open>The proxy route\<close>

text \<open>
  A validation issue of the schema library: its code and the path of the offending field.
\<close>

datatype ZodIssue = ZodIssue (issue_code: string) (issue_path: "string list")

text \<open>The data of a successful parse, with the schema's defaults filled in.\<close>

record ProxyRequest =
  rq_method :: HttpMethod
  rq_path :: string
  rq_target :: Target
  rq_query :: "(string \<times> json) list"
  rq_headers :: "(string \<times> string) list"
  rq_body :: "json option"

text \<open>
  \<open>requestSchema\<close>, field by field. Each parser takes the property of the raw object
  (\<open>None\<close> when the key is absent) and returns the parsed value or a non-empty list of
  issues: \<open>method\<close> is one of five strings; \<open>path\<close> is a string that starts with \<open>/\<close>;
  \<open>target\<close> is \<open>public\<close> or \<open>private\<close> and defaults to \<open>public\<close>; \<open>query\<close> is an
  object of strings, numbers and booleans and defaults to \<open>{}\<close>; \<open>headers\<close> is an object
  of strings and defaults to \<open>{}\<close>; \<open>body\<close> is a string or an object, or absent.
\<close>

definition issues_of :: "ZodIssue list + 'a \<Rightarrow> ZodIssue list" where
  "issues_of r = (case r of Inl issues \<Rightarrow> issues | Inr _ \<Rightarrow> [])"

definition parse_method :: "json option \<Rightarrow> ZodIssue list + HttpMethod" where
  "parse_method v =
     (case v of
        Some (JStr s) \<Rightarrow>
          (if s = ''GET'' then Inr GET
           else if s = ''POST'' then Inr POST
           else if s = ''PUT'' then Inr PUT
           else if s = ''DELETE'' then Inr DELETE
           else if s = ''PATCH'' then Inr PATCH
           else Inl [ZodIssue ''invalid_enum_value'' [''method'']])
      | _ \<Rightarrow> Inl [ZodIssue ''invalid_type'' [''method'']])"

definition startsWith :: "string \<Rightarrow> string \<Rightarrow> bool" where
  "startsWith s p = (take (length p) s = p)"

definition parse_path :: "json option \<Rightarrow> ZodIssue list + string" where
  "parse_path v =
     (case v of
        Some (JStr s) \<Rightarrow>
          (if startsWith s ''/'' then Inr s else Inl [ZodIssue ''invalid_string'' [''path'']])
      | _ \<Rightarrow> Inl [ZodIssue ''invalid_type'' [''path'']])"

definition parse_target :: "json option \<Rightarrow> ZodIssue list + Target" where
  "parse_target v =
     (case v of
        None \<Rightarrow> Inr Public
      | Some (JStr s) \<Rightarrow>
          (if s = ''public'' then Inr Public
           else if s = ''private'' then Inr Private
           else Inl [ZodIssue ''invalid_enum_value'' [''target'']])
      | Some _ \<Rightarrow> Inl [ZodIssue ''invalid_type'' [''target'']])"

fun is_primitive :: "json \<Rightarrow> bool" where
  "is_primitive (JStr _) = True"
| "is_primitive (JNum _) = True"
| "is_primitive (JBool _) = True"
| "is_primitive _ = False"

fun string_of :: "json \<Rightarrow> string option" where
  "string_of (JStr s) = Some s"
| "string_of _ = None"

definition parse_query :: "json option \<Rightarrow> ZodIssue list + (string \<times> json) list" where
  "parse_query v =
     (case v of
        None \<Rightarrow> Inr []
      | Some (JObj kvs) \<Rightarrow>
          (case filter (\<lambda>(k, x). \<not> is_primitive x) kvs of
             [] \<Rightarrow> Inr kvs
           | bad \<Rightarrow> Inl (map (\<lambda>(k, x). ZodIssue ''invalid_union'' [''query'', k]) bad))
      | Some _ \<Rightarrow> Inl [ZodIssue ''invalid_type'' [''query'']])"

definition parse_headers :: "json option \<Rightarrow> ZodIssue list + (string \<times> string) list" where
  "parse_headers v =
     (case v of
        None \<Rightarrow> Inr []
      | Some (JObj kvs) \<Rightarrow>
          (case filter (\<lambda>(k, x). string_of x = None) kvs of
             [] \<Rightarrow> Inr (map (\<lambda>(k, x). (k, case string_of x of Some s \<Rightarrow> s | None \<Rightarrow> [])) kvs)
           | bad \<Rightarrow> Inl (map (\<lambda>(k, x). ZodIssue ''invalid_type'' [''headers'', k]) bad))
      | Some _ \<Rightarrow> Inl [ZodIssue ''invalid_type'' [''headers'']])"

definition parse_body :: "json option \<Rightarrow> ZodIssue list + json option" where
  "parse_body v =
     (case v of
        None \<Rightarrow> Inr None
      | Some (JStr s) \<Rightarrow> Inr (Some (JStr s))
      | Some (JObj kvs) \<Rightarrow> Inr (Some (JObj kvs))
      | Some _ \<Rightarrow> Inl [ZodIssue ''invalid_union'' [''body'']])"

text \<open>
  \<open>requestSchema.safeParse(raw)\<close>: the raw value must be an object; unknown keys are
  dropped; the issues of all fields are collected, and the parse succeeds when there is none.
\<close>

definition safeParse :: "json \<Rightarrow> ZodIssue list + ProxyRequest" where
  "safeParse raw =
     (case raw of
        JObj kvs \<Rightarrow>
          (let m = parse_method (lookup kvs ''method'');
               p = parse_path (lookup kvs ''path'');
               t = parse_target (lookup kvs ''target'');
               q = parse_query (lookup kvs ''query'');
               h = parse_headers (lookup kvs ''headers'');
               b = parse_body (lookup kvs ''body'');
               failure = Inl (issues_of m @ issues_of p @ issues_of t @ issues_of q
                              @ issues_of h @ issues_of b)
           in case m of Inl _ \<Rightarrow> failure | Inr m' \<Rightarrow>
              (case p of Inl _ \<Rightarrow> failure | Inr p' \<Rightarrow>
              (case t of Inl _ \<Rightarrow> failure | Inr t' \<Rightarrow>
              (case q of Inl _ \<Rightarrow> failure | Inr q' \<Rightarrow>
              (case h of Inl _ \<Rightarrow> failure | Inr h' \<Rightarrow>
              (case b of Inl _ \<Rightarrow> failure | Inr b' \<Rightarrow>
                 Inr \<lparr>rq_method = m', rq_path = p', rq_target = t', rq_query = q',
                      rq_headers = h', rq_body = b'\<rparr>))))))
      | _ \<Rightarrow> Inl [ZodIssue ''invalid_type'' []])"

text \<open>
  The request schema in the specification's words (external interfaces): the predicate a
  well-formed proxy body satisfies, written without reference to the parser.
\<close>

definition conforms :: "json \<Rightarrow> bool" where
  "conforms raw =
     (case raw of
        JObj kvs \<Rightarrow>
          (case lookup kvs ''method'' of
             Some (JStr s) \<Rightarrow> s \<in> set [''GET'', ''POST'', ''PUT'', ''DELETE'', ''PATCH'']
           | _ \<Rightarrow> False)
          \<and> (case lookup kvs ''path'' of
               Some (JStr s) \<Rightarrow> (case s of c # _ \<Rightarrow> c = CHR ''/'' | [] \<Rightarrow> False)
             | _ \<Rightarrow> False)
          \<and> (case lookup kvs ''target'' of
               None \<Rightarrow> True
             | Some (JStr s) \<Rightarrow> s = ''public'' \<or> s = ''private''
             | Some _ \<Rightarrow> False)
          \<and> (case lookup kvs ''query'' of
               None \<Rightarrow> True
             | Some (JObj q) \<Rightarrow> list_all (\<lambda>(k, x). is_primitive x) q
             | Some _ \<Rightarrow> False)
          \<and> (case lookup kvs ''headers'' of
               None \<Rightarrow> True
             | Some (JObj h) \<Rightarrow> list_all (\<lambda>(k, x). string_of x \<noteq> None) h
             | Some _ \<Rightarrow> False)
          \<and> (case lookup kvs ''body'' of
               None \<Rightarrow> True
             | Some (JStr s) \<Rightarrow> True
             | Some (JObj b) \<Rightarrow> True
             | Some _ \<Rightarrow> False)
      | _ \<Rightarrow> False)"

text \<open>
  A URL as \<open>new URL(path, base)\<close> resolved it: its location (scheme, host, path and
  fragment, one string) and the name-value pairs of its query. The request the route sends
  upstream, the upstream response as the route reads it (\<open>response.text()\<close> may reject),
  and what the route takes from its platform: \<open>resolveBaseUrl\<close> of \<open>lib/pi42\<close>,
  \<open>new URL(path, base)\<close> (\<open>Inl\<close> the message when it throws), whether
  \<open>Headers.set(key, value)\<close> throws, \<open>String(number)\<close>, \<open>JSON.stringify\<close>,
  \<open>JSON.parse\<close> and \<open>fetch\<close>.
\<close>

record URL =
  url_location :: string
  url_searchParams :: "(string \<times> string) list"

record ForwardRequest =
  fw_url :: URL
  fw_method :: HttpMethod
  fw_headers :: "(string \<times> string) list"
  fw_body :: "string option"

record UpstreamResponse =
  up_status :: nat
  up_statusText :: string
  up_text :: "string + string"

record RouteEnv =
  rt_resolveBaseUrl :: "Target \<Rightarrow> string"
  rt_new_URL :: "string \<Rightarrow> string \<Rightarrow> string + URL"
  rt_Headers_error :: "string \<Rightarrow> string \<Rightarrow> string option"
  rt_String :: "number \<Rightarrow> string"
  rt_stringify :: "json \<Rightarrow> string"
  rt_parse :: "string \<Rightarrow> string + json"
  rt_fetch :: "ForwardRequest \<Rightarrow> string + UpstreamResponse"

text \<open>
  \<open>URLSearchParams.set\<close> and \<open>Headers.set\<close>: set the value of the first pair of that
  name and remove the others, or append. Header names are ASCII tokens compared without
  regard to case; they are kept in lower case, byte by byte. \<open>Headers.set\<close> strips the
  HTTP white space (tab, line feed, carriage return, space) around the value before it
  validates and stores it.
\<close>

fun entries_set :: "string \<Rightarrow> string \<Rightarrow> (string \<times> string) list \<Rightarrow> (string \<times> string) list" where
  "entries_set k v [] = [(k, v)]"
| "entries_set k v ((k', v') # rest) =
     (if k' = k then (k, v) # filter (\<lambda>(a, _). a \<noteq> k) rest
      else (k', v') # entries_set k v rest)"

definition byte_lowercase :: "string \<Rightarrow> string" where
  "byte_lowercase s =
     map (\<lambda>c. if 65 \<le> (of_char c :: nat) \<and> (of_char c :: nat) \<le> 90
              then char_of (of_char c + 32 :: nat) else c) s"

definition isHttpWhitespace :: "char \<Rightarrow> bool" where
  "isHttpWhitespace c = (of_char c \<in> set [9, 10, 13, 32 :: nat])"

definition normalizeValue :: "string \<Rightarrow> string" where
  "normalizeValue v = rev (dropWhile isHttpWhitespace (rev (dropWhile isHttpWhitespace v)))"

text \<open>
  Query entries are skipped when the value is the empty string; header entries are skipped
  when the value is empty; the body is forwarded as it is when it is a string and
  serialised otherwise.
\<close>

definition String_of :: "RouteEnv \<Rightarrow> json \<Rightarrow> string" where
  "String_of env v =
     (case v of
        JStr s \<Rightarrow> s
      | JBool b \<Rightarrow> (if b then ''true'' else ''false'')
      | JNum n \<Rightarrow> rt_String env n
      | _ \<Rightarrow> rt_stringify env v)"

definition searchParams ::
  "RouteEnv \<Rightarrow> (string \<times> json) list \<Rightarrow> (string \<times> string) list
     \<Rightarrow> (string \<times> string) list" where
  "searchParams env query initial =
     foldl (\<lambda>params (key, val). if val = JStr [] then params
                                 else entries_set key (String_of env val) params)
       initial query"

fun forwardHeaders ::
  "RouteEnv \<Rightarrow> (string \<times> string) list \<Rightarrow> (string \<times> string) list
     \<Rightarrow> string + (string \<times> string) list" where
  "forwardHeaders env [] hs = Inr hs"
| "forwardHeaders env ((key, val) # rest) hs =
     (if val = [] then forwardHeaders env rest hs
      else (case rt_Headers_error env key (normalizeValue val) of
              Some msg \<Rightarrow> Inl msg
            | None \<Rightarrow>
                forwardHeaders env rest
                  (entries_set (byte_lowercase key) (normalizeValue val) hs)))"

definition forwardRequest :: "RouteEnv \<Rightarrow> ProxyRequest \<Rightarrow> string + ForwardRequest" where
  "forwardRequest env d =
     (let baseUrl = rt_resolveBaseUrl env (rq_target d)
      in case rt_new_URL env (rq_path d) baseUrl of
           Inl msg \<Rightarrow> Inl msg
         | Inr url \<Rightarrow>
             (case forwardHeaders env (rq_headers d)
                     [(''accept'', ''application/json''),
                      (''content-type'', ''application/json'')] of
                Inl msg \<Rightarrow> Inl msg
              | Inr hs \<Rightarrow>
                  Inr \<lparr>fw_url =
                         url\<lparr>url_searchParams :=
                               searchParams env (rq_query d) (url_searchParams url)\<rparr>,
                       fw_method = rq_method d, fw_headers = hs,
                       fw_body =
                         (case rq_body d of
                            None \<Rightarrow> None
                          | Some (JStr s) \<Rightarrow> Some s
                          | Some obj \<Rightarrow> Some (rt_stringify env obj))\<rparr>))"

text \<open>
  The JSON bodies the route answers with, and \<open>NextResponse.json(body, {status})\<close>. The
  latter builds a Fetch \<open>Response\<close> with a body, and the Fetch standard's response
  initialisation throws a RangeError for a status outside 200 to 599 and a TypeError for a
  body together with a null-body status (101, 103, 204, 205, 304). The messages are the
  ones of the Node runtime; the second ends with the status code in decimal.
\<close>

fun decimal :: "nat \<Rightarrow> string" where
  "decimal n =
     (if n < 10 then [char_of (48 + n)]
      else decimal (n div 10) @ [char_of (48 + n mod 10)])"

declare decimal.simps [simp del]

datatype ResponseBody =
    InvalidPayload string "ZodIssue list"
  | Mirrored nat string json
  | ErrorBody string

record RouteResponse =
  http_status :: nat
  json_body :: ResponseBody

definition null_body_status :: "nat \<Rightarrow> bool" where
  "null_body_status st = (st \<in> set [101, 103, 204, 205, 304])"

definition NextResponse_json :: "ResponseBody \<Rightarrow> nat \<Rightarrow> string + RouteResponse" where
  "NextResponse_json b st =
     (if st < 200 \<or> 599 < st
      then Inl (''init['' @ [CHR 0x22] @ ''status'' @ [CHR 0x22]
                @ ''] must be in the range of 200 to 599, inclusive.'')
      else if null_body_status st
      then Inl (''Response constructor: Invalid response status code '' @ decimal st)
      else Inr \<lparr>http_status = st, json_body = b\<rparr>)"

text \<open>
  The \<open>catch\<close> block of the route answers 500 with the error's message; \<open>respond\<close> is a
  \<open>NextResponse.json\<close> call inside the \<open>try\<close> block, whose throw is caught by it.
\<close>

definition caught :: "string \<Rightarrow> RouteResponse" where
  "caught msg = \<lparr>http_status = 500, json_body = ErrorBody msg\<rparr>"

definition respond :: "ResponseBody \<Rightarrow> nat \<Rightarrow> RouteResponse" where
  "respond b st = (case NextResponse_json b st of Inr r \<Rightarrow> r | Inl msg \<Rightarrow> caught msg)"

text \<open>
  \<open>data = text ? JSON.parse(text) : null\<close>, with the raw text when the parse throws.
\<close>

definition decode :: "RouteEnv \<Rightarrow> string \<Rightarrow> json" where
  "decode env text =
     (if text \<noteq> [] then (case rt_parse env text of Inr v \<Rightarrow> v | Inl _ \<Rightarrow> JStr text)
      else JNull)"

text \<open>
  The route handler \<open>POST\<close>: its response and the upstream requests it issued.
  \<open>req.json()\<close> is given as its result (\<open>Inl\<close> when the request body is not JSON).
\<close>

definition POST_handler ::
  "RouteEnv \<Rightarrow> string + json \<Rightarrow> RouteResponse \<times> ForwardRequest list" where
  "POST_handler env req_json =
     (case req_json of
        Inl msg \<Rightarrow> (caught msg, [])
      | Inr raw \<Rightarrow>
     (case safeParse raw of
        Inl issues \<Rightarrow> (respond (InvalidPayload ''Invalid request payload'' issues) 400, [])
      | Inr d \<Rightarrow>
     (case forwardRequest env d of
        Inl msg \<Rightarrow> (caught msg, [])
      | Inr fw \<Rightarrow>
     (case rt_fetch env fw of
        Inl msg \<Rightarrow> (caught msg, [fw])
      | Inr response \<Rightarrow>
     (case up_text response of
        Inl msg \<Rightarrow> (caught msg, [fw])
      | Inr text \<Rightarrow>
          (respond (Mirrored (up_status response) (up_statusText response) (decode env text))
             (up_status response),
           [fw]))))))"

section \<open>Sample values\<close>

text \<open>Concrete trades and candles on which the handlers are evaluated.\<close>

definition sampleTrade :: "nat \<Rightarrow> Pi42AggTrade" where
  "sampleTrade n =
     \<lparr>tr_e = ''aggTrade'', tr_E = of_nat n, tr_a = of_nat n, tr_s = ''BTCINR'',
      tr_p = ''100'', tr_q = ''1'', tr_f = of_nat n, tr_l = of_nat n, tr_T = of_nat n,
      tr_m = False\<rparr>"

definition sampleKline :: "string \<Rightarrow> string \<Rightarrow> Pi42Kline" where
  "sampleKline t c =
     \<lparr>startTime = t, open' = ''10'', high = ''12'', low = ''9'', close = c,
      endTime = ''199'', volume = ''5''\<rparr>"

definition sampleContract :: "string \<Rightarrow> Pi42Contract" where
  "sampleContract n =
     \<lparr>ct_name = n, ct_contractName = n, ct_baseAsset = ''BTC'', ct_quoteAsset = ''INR'',
      ct_market = Some ''INR'', ct_depthGrouping = Some [''0.1'']\<rparr>"

definition sampleStats :: Pi42MarketInfoEntry where
  "sampleStats =
     \<lparr>mi_lastPrice = None, mi_marketPrice = None, mi_priceChangePercent = None,
      mi_baseAssetVolume = None, mi_quoteAssetVolume = None, mi_upcomingFundingRate = None\<rparr>"

definition mover :: "string \<Rightarrow> number option \<Rightarrow> CombinedContractMetrics" where
  "mover n pct =
     \<lparr>contract = sampleContract n, marketStats = Some sampleStats, cm_market = ''INR'',
      lastPrice = None, markPrice = None, priceChangePercent = pct, baseVolume = None,
      quoteVolume = None, fundingRateBps = None\<rparr>"

definition sampleProxy :: "bool \<Rightarrow> nat \<Rightarrow> proxyRequest_at" where
  "sampleProxy depthFails n =
     \<lparr>proxyTicker = (\<lambda>_. Fulfilled None),
      proxyDepth = (\<lambda>_. if depthFails then Rejected ''Request failed with 502''
                          else Fulfilled None),
      proxyTrades = (\<lambda>_. Fulfilled (Some (Envelope (Some (map sampleTrade [0..<n]))))),
      proxyKlines = (\<lambda>_. Fulfilled (Some []))\<rparr>"

definition sampleState :: DashboardState where
  "sampleState =
     \<lparr>st_ticker = None, st_depth = None, st_trades = [sampleTrade 7],
      st_klines = [sampleKline ''100'' ''11''], st_loading = True\<rparr>"

definition sampleParse :: "string \<Rightarrow> string + json" where
  "sampleParse s =
     (if s = ''{}'' then Inr (JObj [])
      else if s = ''[5]'' then Inr (JArr [JNum 5])
      else Inl ''Unexpected token'')"

definition sampleTextParse :: "js_text \<Rightarrow> string + json" where
  "sampleTextParse t =
     (if t = units ''{}'' then Inr (JObj [])
      else if t = units ''[5]'' then Inr (JArr [JNum 5])
      else if t = units '' [7] '' then Inr (JArr [JNum 7])
      else Inl ''Unexpected token'')"

definition sampleEnv :: ExplorerEnv where
  "sampleEnv =
     \<lparr>JSON_parse = sampleTextParse, JSON_stringify = (\<lambda>_. ''null''),
      proxyRequest = (\<lambda>_. Fulfilled JNull)\<rparr>"

definition sampleExplorer :: "HttpMethod \<Rightarrow> js_text \<Rightarrow> js_text \<Rightarrow> js_text \<Rightarrow> ExplorerState" where
  "sampleExplorer m q b h =
     \<lparr>ex_method = m, ex_path = ''/v1/market/klines'', ex_target = Public, ex_query = q,
      ex_body = b, ex_headers = h, ex_response = [], ex_isLoading = False,
      ex_error = None\<rparr>"

definition sampleOps :: StringOps where
  "sampleOps =
     \<lparr>toLowerCase =
        map (\<lambda>c. if 65 \<le> (of_char c :: nat) \<and> (of_char c :: nat) \<le> 90
                 then char_of (of_char c + 32 :: nat) else c),
      removeWhiteSpace = filter (\<lambda>c. c \<noteq> CHR '' '')\<rparr>"

definition sampleContracts :: "CombinedContractMetrics list" where
  "sampleContracts =
     [mover ''BTCINR'' (Some 1),
      (mover ''ETHINR'' (Some 2))
        \<lparr>contract := (sampleContract ''ETHINR'')\<lparr>ct_depthGrouping := Some [''0. 5'', ''1'']\<rparr>\<rparr>]"

definition sampleRoute :: "nat \<Rightarrow> string \<Rightarrow> string \<Rightarrow> RouteEnv" where
  "sampleRoute st statusText text =
     \<lparr>rt_resolveBaseUrl = (\<lambda>t. case t of Public \<Rightarrow> ''https://public.example''
                                      | Private \<Rightarrow> ''https://private.example''),
      rt_new_URL = (\<lambda>path base. Inr \<lparr>url_location = base @ path, url_searchParams = []\<rparr>),
      rt_Headers_error = (\<lambda>_ _. None),
      rt_String = (\<lambda>_. ''0''),
      rt_stringify = (\<lambda>_. ''{}''),
      rt_parse = sampleParse,
      rt_fetch = (\<lambda>_. Inr \<lparr>up_status = st, up_statusText = statusText, up_text = Inr text\<rparr>)\<rparr>"

definition sampleRaw :: "string \<Rightarrow> string \<Rightarrow> json" where
  "sampleRaw m p = JObj [(''method'', JStr m), (''path'', JStr p)]"

section \<open>Properties of the realtime handlers\<close>

lemma slice_last_length: "length (slice_last n xs) = min n (length xs)"
  by (simp add: slice_last_def)

lemma slice_last_short: "length xs \<le> n \<Longrightarrow> slice_last n xs = xs"
  by (simp add: slice_last_def)

lemma slice_last_snoc: "0 < n \<Longrightarrow> slice_last n (xs @ [x]) = slice_last (n - 1) xs @ [x]"
  by (simp add: slice_last_def)

lemma slice_last_slice_last: "m \<le> n \<Longrightarrow> slice_last m (slice_last n xs) = slice_last m xs"
proof -
  assume "m \<le> n"
  then have "length xs - (length xs - n + m) + (length xs - n) = length xs - m"
    by arith
  then show ?thesis by (simp add: slice_last_def)
qed

lemma handleTrade_eq: "handleTrade prev payload = slice_last 181 (prev @ [payload])"
  by (simp add: handleTrade_def slice_last_snoc)

lemma handleTrade_length: "length (handleTrade prev payload) = min 180 (length prev) + 1"
  by (simp add: handleTrade_def slice_last_length)

lemma foldl_handleTrade:
  "foldl handleTrade prev ts = (if ts = [] then prev else slice_last 181 (prev @ ts))"
proof (induction ts rule: rev_induct)
  case Nil
  then show ?case by simp
next
  case (snoc t ts)
  show ?case
  proof (cases "ts = []")
    case True
    then show ?thesis by (simp add: handleTrade_eq)
  next
    case False
    with snoc have "foldl handleTrade prev (ts @ [t]) = handleTrade (slice_last 181 (prev @ ts)) t"
      by simp
    also have "\<dots> = slice_last 180 (prev @ ts) @ [t]"
      by (simp add: handleTrade_def slice_last_slice_last)
    also have "\<dots> = slice_last 181 (prev @ ts @ [t])"
      using slice_last_snoc [of 181 "prev @ ts" t] by simp
    finally show ?thesis by simp
  qed
qed

lemma findIndex_Some_iff:
  "findIndex p xs = Some i \<longleftrightarrow> i < length xs \<and> p (xs ! i) \<and> (\<forall>j<i. \<not> p (xs ! j))"
proof (induction xs arbitrary: i)
  case Nil
  then show ?case by simp
next
  case (Cons x xs)
  show ?case
  proof (cases "p x")
    case True
    then show ?thesis
      by (cases i) auto
  next
    case False
    show ?thesis
    proof (cases i)
      case 0
      with False show ?thesis by auto
    next
      case (Suc n)
      have "(\<forall>j<Suc n. \<not> p ((x # xs) ! j)) \<longleftrightarrow> (\<forall>j<n. \<not> p (xs ! j))"
        using False by (auto simp: less_Suc_eq_0_disj)
      with False Suc Cons.IH [of n] show ?thesis by auto
    qed
  qed
qed

lemma findIndex_None_iff: "findIndex p xs = None \<longleftrightarrow> (\<forall>x\<in>set xs. \<not> p x)"
  by (induction xs) auto

lemma findIndex_append_hit:
  "\<forall>x\<in>set xs. \<not> p x \<Longrightarrow> p y \<Longrightarrow> findIndex p (xs @ y # ys) = Some (length xs)"
  by (induction xs) auto


text \<open>
  Claim C2. Each aggTrade event cuts the previous list to its last 180 entries and then
  appends the trade, so up to 181 entries stay: after 200 trades fed one at a time to an
  empty list, the most recent 181 are retained, oldest first (not 180).
\<close>

theorem handleTrade_200_keeps_181:
  "foldl handleTrade [] (map sampleTrade [0..<200]) = map sampleTrade [19..<200]
   \<and> length (foldl handleTrade [] (map sampleTrade [0..<200])) = 181"
proof -
  have "foldl handleTrade [] (map sampleTrade [0..<200])
          = slice_last 181 (map sampleTrade [0..<200])"
    by (simp add: foldl_handleTrade)
  also have "\<dots> = map sampleTrade [19..<200]"
    by (simp add: slice_last_def drop_map)
  finally have eq: "foldl handleTrade [] (map sampleTrade [0..<200]) = map sampleTrade [19..<200]" .
  then show ?thesis by simp
qed

lemma upsertKline_hit:
  assumes "i < length prev" "startTime (prev ! i) = startTime k"
    "\<forall>j<i. startTime (prev ! j) \<noteq> startTime k"
  shows "upsertKline prev k = slice_last 400 (prev[i := k])"
proof -
  have "findIndex (\<lambda>item. startTime item = startTime k) prev = Some i"
    using assms by (simp add: findIndex_Some_iff)
  then show ?thesis by (simp add: upsertKline_def)
qed

lemma upsertKline_miss:
  assumes "\<forall>x\<in>set prev. startTime x \<noteq> startTime k"
  shows "upsertKline prev k = slice_last 400 (prev @ [k])"
proof -
  have "findIndex (\<lambda>item. startTime item = startTime k) prev = None"
    using assms by (simp add: findIndex_None_iff)
  then show ?thesis by (simp add: upsertKline_def)
qed

lemma upsertKline_length: "length (upsertKline prev k) \<le> 400"
  by (simp add: upsertKline_def Let_def slice_last_length)

lemma upsertKline_twice:
  assumes miss: "\<forall>x\<in>set prev. startTime x \<noteq> startTime k"
    and same: "startTime k' = startTime k"
  shows "upsertKline (upsertKline prev k) k' = slice_last 399 prev @ [k']"
proof -
  let ?keep = "slice_last 399 prev"
  have first: "upsertKline prev k = ?keep @ [k]"
    using upsertKline_miss [OF miss] by (simp add: slice_last_snoc)
  have sub: "set ?keep \<subseteq> set prev"
    by (simp add: slice_last_def set_drop_subset)
  with miss have nohit: "\<forall>x\<in>set ?keep. \<not> (startTime x = startTime k')"
    using same by auto
  have "findIndex (\<lambda>item. startTime item = startTime k') (?keep @ k # []) = Some (length ?keep)"
    using nohit same by (intro findIndex_append_hit) auto
  then have "upsertKline (?keep @ [k]) k' = slice_last 400 ((?keep @ [k])[length ?keep := k'])"
    by (simp add: upsertKline_def)
  also have "\<dots> = slice_last 400 (?keep @ [k'])"
    by simp
  also have "\<dots> = ?keep @ [k']"
    by (rule slice_last_short) (simp add: slice_last_length)
  finally show ?thesis using first by simp
qed

text \<open>
  Claim C6. For an incoming kline: when an entry with the same start time exists, the first
  such entry is replaced at its index and the length is unchanged; when none exists the
  kline is appended; the result is the last 400 entries of that list. Feeding two klines
  of one start time to a list that has no entry for it leaves exactly one entry for that
  start time, the second kline.
\<close>

theorem handleKline_upsert:
  "(\<forall>i. i < length prev \<and> startTime (prev ! i) = startTime k
         \<and> (\<forall>j<i. startTime (prev ! j) \<noteq> startTime k)
       \<longrightarrow> handleKline prev (Some k) = slice_last 400 (prev[i := k])
           \<and> length (prev[i := k]) = length prev \<and> prev[i := k] ! i = k)
   \<and> ((\<forall>x\<in>set prev. startTime x \<noteq> startTime k)
       \<longrightarrow> handleKline prev (Some k) = slice_last 400 (prev @ [k]))
   \<and> length (handleKline prev (Some k)) \<le> 400
   \<and> ((\<forall>x\<in>set prev. startTime x \<noteq> startTime k) \<and> startTime k' = startTime k
       \<longrightarrow> filter (\<lambda>x. startTime x = startTime k)
             (handleKline (handleKline prev (Some k)) (Some k')) = [k'])"
proof (intro conjI allI impI)
  fix i
  assume h: "i < length prev \<and> startTime (prev ! i) = startTime k
         \<and> (\<forall>j<i. startTime (prev ! j) \<noteq> startTime k)"
  then show "handleKline prev (Some k) = slice_last 400 (prev[i := k])"
    by (simp add: handleKline_def upsertKline_hit)
  show "length (prev[i := k]) = length prev" by simp
  from h show "prev[i := k] ! i = k" by simp
next
  assume "\<forall>x\<in>set prev. startTime x \<noteq> startTime k"
  then show "handleKline prev (Some k) = slice_last 400 (prev @ [k])"
    by (simp add: handleKline_def upsertKline_miss)
next
  show "length (handleKline prev (Some k)) \<le> 400"
    by (simp add: handleKline_def upsertKline_length)
next
  assume h: "(\<forall>x\<in>set prev. startTime x \<noteq> startTime k) \<and> startTime k' = startTime k"
  then have eq: "handleKline (handleKline prev (Some k)) (Some k') = slice_last 399 prev @ [k']"
    by (simp add: handleKline_def upsertKline_twice)
  have "set (slice_last 399 prev) \<subseteq> set prev"
    by (simp add: slice_last_def set_drop_subset)
  with h have "filter (\<lambda>x. startTime x = startTime k) (slice_last 399 prev) = []"
    by (auto simp: filter_empty_conv)
  with h eq show "filter (\<lambda>x. startTime x = startTime k)
             (handleKline (handleKline prev (Some k)) (Some k')) = [k']"
    by simp
qed

theorem handleKline_upsert_witness:
  "handleKline [] (Some (sampleKline ''100'' ''11'')) = [sampleKline ''100'' ''11'']
   \<and> handleKline [sampleKline ''40'' ''8'', sampleKline ''100'' ''11''] (Some (sampleKline ''100'' ''12''))
       = [sampleKline ''40'' ''8'', sampleKline ''100'' ''12'']
   \<and> filter (\<lambda>x. startTime x = ''100'')
        (handleKline (handleKline [] (Some (sampleKline ''100'' ''11''))) (Some (sampleKline ''100'' ''12'')))
       = [sampleKline ''100'' ''12'']"
proof -
  have a: "handleKline [] (Some (sampleKline ''100'' ''11'')) = [sampleKline ''100'' ''11'']"
    using handleKline_upsert [of "[]" "sampleKline ''100'' ''11''" "sampleKline ''100'' ''12''"]
    by (simp add: slice_last_def)
  have b: "handleKline [sampleKline ''40'' ''8'', sampleKline ''100'' ''11''] (Some (sampleKline ''100'' ''12''))
       = [sampleKline ''40'' ''8'', sampleKline ''100'' ''12'']"
    using handleKline_upsert [of "[sampleKline ''40'' ''8'', sampleKline ''100'' ''11'']"
        "sampleKline ''100'' ''12''" "sampleKline ''100'' ''12''", THEN conjunct1, rule_format, of 1]
    by (simp add: slice_last_def sampleKline_def)
  have c: "filter (\<lambda>x. startTime x = ''100'')
        (handleKline (handleKline [] (Some (sampleKline ''100'' ''11''))) (Some (sampleKline ''100'' ''12'')))
       = [sampleKline ''100'' ''12'']"
    using handleKline_upsert [of "[]" "sampleKline ''100'' ''11''" "sampleKline ''100'' ''12''",
        THEN conjunct2, THEN conjunct2, THEN conjunct2]
    by (simp add: sampleKline_def)
  from a b c show ?thesis by simp
qed

section \<open>Properties of the snapshot aggregation\<close>

lemma js_sort_desc_mset: "mset (js_sort_desc key xs) = mset xs"
  by (simp add: js_sort_desc_def)

lemma js_sort_desc_sorted: "sorted_wrt (\<lambda>a b. key b \<le> key a) (js_sort_desc key xs)"
proof -
  have "sorted (map (\<lambda>x. - key x) (js_sort_desc key xs))"
    by (simp add: js_sort_desc_def)
  then show ?thesis
    by (simp add: sorted_map)
qed

lemma js_sort_desc_stable:
  "filter (\<lambda>x. key x = v) (js_sort_desc key xs) = filter (\<lambda>x. key x = v) xs"
proof -
  have "filter (\<lambda>x. - key x = - v) (sort_key (\<lambda>x. - key x) xs) = filter (\<lambda>x. - key x = - v) xs"
    by (rule sort_key_stable)
  then show ?thesis by (simp add: js_sort_desc_def)
qed

lemma topMovers_spec_agrees:
  "\<forall>item\<in>set contracts. priceChangePercent item \<noteq> None \<Longrightarrow>
     topMovers contracts = topMovers_spec contracts"
  by (simp add: topMovers_def topMovers_spec_def)


text \<open>
  Claim C5 (as the code has it). The top movers are the first six of the combined contracts
  that have a numeric price-change percent, arranged by absolute change descending with ties
  in the order of the combined list: the ranked list is a rearrangement of the numeric
  entries, is descending in absolute change, and keeps entries of equal absolute change in
  their prior order. For the change percentages 1, -10, 3, -2, 0.5, 7, -0.1 the top six are
  -10, 7, 3, -2, 1, 0.5 in that order.
\<close>

theorem topMovers_ranked:
  "(\<exists>ranked. topMovers contracts = take 6 ranked
       \<and> mset ranked = mset (filter (\<lambda>item. priceChangePercent item \<noteq> None) contracts)
       \<and> sorted_wrt (\<lambda>a b. absChange b \<le> absChange a) ranked
       \<and> (\<forall>v. filter (\<lambda>item. absChange item = v) ranked
              = filter (\<lambda>item. absChange item = v)
                  (filter (\<lambda>item. priceChangePercent item \<noteq> None) contracts)))
   \<and> map priceChangePercent
        (topMovers (map (\<lambda>p. mover ''X'' (Some p)) [1, -10, 3, -2, 1/2, 7, -1/10]))
       = map Some [-10, 7, 3, -2, 1, 1/2]"
proof (intro conjI)
  let ?numeric = "filter (\<lambda>item. priceChangePercent item \<noteq> None) contracts"
  show "\<exists>ranked. topMovers contracts = take 6 ranked
       \<and> mset ranked = mset ?numeric
       \<and> sorted_wrt (\<lambda>a b. absChange b \<le> absChange a) ranked
       \<and> (\<forall>v. filter (\<lambda>item. absChange item = v) ranked
              = filter (\<lambda>item. absChange item = v) ?numeric)"
  proof (intro exI [of _ "js_sort_desc absChange ?numeric"] conjI allI)
    show "topMovers contracts = take 6 (js_sort_desc absChange ?numeric)"
      by (simp add: topMovers_def slice_first_def)
  qed (rule js_sort_desc_mset js_sort_desc_sorted js_sort_desc_stable)+
next
  show "map priceChangePercent
        (topMovers (map (\<lambda>p. mover ''X'' (Some p)) [1, -10, 3, -2, 1/2, 7, -1/10]))
       = map Some [-10, 7, 3, -2, 1, 1/2]"
    by code_simp
qed


text \<open>
  Claim C5 as stated, refuted: with a contract that has no numeric change percent in the
  combined list, the code's top movers leave it out, while the first six of the whole list
  sorted by absolute change contain it.
\<close>

theorem topMovers_counterexample:
  "topMovers [mover ''A'' None, mover ''B'' (Some 5)] = [mover ''B'' (Some 5)]
   \<and> topMovers_spec [mover ''A'' None, mover ''B'' (Some 5)]
       = [mover ''B'' (Some 5), mover ''A'' None]
   \<and> topMovers [mover ''A'' None, mover ''B'' (Some 5)]
       \<noteq> topMovers_spec [mover ''A'' None, mover ''B'' (Some 5)]"
  by (simp add: topMovers_def topMovers_spec_def js_sort_desc_def slice_first_def absChange_def
      mover_def)

section \<open>Properties of the market bundle fetch\<close>

lemma fetchMarketBundle_requests:
  "fst (fetchMarketBundle P race symbol interval) =
     [tickerRequest symbol, depthRequest symbol, tradesRequest symbol,
      klinesRequest symbol interval]"
  by (simp add: fetchMarketBundle_def Let_def)

lemma fetchMarketBundle_rejects:
  assumes "proxyTicker P (tickerRequest symbol) = Rejected e
         \<or> proxyDepth P (depthRequest symbol) = Rejected e
         \<or> proxyTrades P (tradesRequest symbol) = Rejected e
         \<or> proxyKlines P (klinesRequest symbol interval) = Rejected e"
  shows "\<exists>e'. snd (fetchMarketBundle P race symbol interval) = Rejected e'"
  using assms by (auto simp: fetchMarketBundle_def Let_def split: settled.splits)

lemma fetchMarketBundle_fulfils:
  assumes "proxyTicker P (tickerRequest symbol) = Fulfilled t"
    "proxyDepth P (depthRequest symbol) = Fulfilled d"
    "proxyTrades P (tradesRequest symbol) = Fulfilled tr"
    "proxyKlines P (klinesRequest symbol interval) = Fulfilled ks"
  shows "snd (fetchMarketBundle P race symbol interval) =
     Fulfilled
       \<lparr>bundle_ticker = (case t of None \<Rightarrow> None | Some t' \<Rightarrow> data_of t'),
        bundle_depth = (case d of None \<Rightarrow> None | Some d' \<Rightarrow> data_of d'),
        bundle_trades =
          (case tr of None \<Rightarrow> []
           | Some t' \<Rightarrow> (case data_of t' of None \<Rightarrow> [] | Some xs \<Rightarrow> slice_last 120 xs)),
        bundle_klines = (case ks of None \<Rightarrow> [] | Some ks' \<Rightarrow> ks')\<rparr>"
  using assms by (simp add: fetchMarketBundle_def Let_def)

lemma refreshBundle_rejected_keeps:
  assumes "snd (fetchMarketBundle P race symbol interval) = Rejected e"
  shows "st_ticker (snd (snd (refreshBundle P race cancelled symbol interval s))) = st_ticker s
       \<and> st_depth (snd (snd (refreshBundle P race cancelled symbol interval s))) = st_depth s
       \<and> st_trades (snd (snd (refreshBundle P race cancelled symbol interval s))) = st_trades s
       \<and> st_klines (snd (snd (refreshBundle P race cancelled symbol interval s))) = st_klines s"
  using assms by (simp add: refreshBundle_def Let_def case_prod_beta)

lemma refreshBundle_fulfilled_applies:
  assumes "snd (fetchMarketBundle P race symbol interval) = Fulfilled b"
    "symbol \<noteq> []" "\<not> cancelled"
  shows "snd (snd (refreshBundle P race cancelled symbol interval s)) =
     s\<lparr>st_ticker := bundle_ticker b, st_depth := bundle_depth b, st_trades := bundle_trades b,
       st_klines := bundle_klines b, st_loading := False\<rparr>"
  using assms by (simp add: refreshBundle_def Let_def case_prod_beta)


text \<open>
  Claim C7. The bundle fetch issues the four requests (ticker, depth, trades, klines). If any
  one of them rejects, the fetch rejects and the refresh leaves the ticker, depth, trades and
  klines of the state as they were. If all four fulfil, the fetch fulfils with the trades cut
  to the most recent 120, and these become the state's trades.
\<close>

theorem fetchMarketBundle_all_or_nothing:
  "fst (fetchMarketBundle P race symbol interval) =
     [tickerRequest symbol, depthRequest symbol, tradesRequest symbol,
      klinesRequest symbol interval]
   \<and> ((\<exists>e. proxyTicker P (tickerRequest symbol) = Rejected e
            \<or> proxyDepth P (depthRequest symbol) = Rejected e
            \<or> proxyTrades P (tradesRequest symbol) = Rejected e
            \<or> proxyKlines P (klinesRequest symbol interval) = Rejected e)
       \<longrightarrow> (\<exists>e'. snd (fetchMarketBundle P race symbol interval) = Rejected e')
           \<and> st_ticker (snd (snd (refreshBundle P race cancelled symbol interval s))) = st_ticker s
           \<and> st_depth (snd (snd (refreshBundle P race cancelled symbol interval s))) = st_depth s
           \<and> st_trades (snd (snd (refreshBundle P race cancelled symbol interval s))) = st_trades s
           \<and> st_klines (snd (snd (refreshBundle P race cancelled symbol interval s))) = st_klines s)
   \<and> (\<forall>t d xs ks.
         proxyTicker P (tickerRequest symbol) = Fulfilled t
         \<and> proxyDepth P (depthRequest symbol) = Fulfilled d
         \<and> proxyTrades P (tradesRequest symbol) = Fulfilled (Some (Envelope (Some xs)))
         \<and> proxyKlines P (klinesRequest symbol interval) = Fulfilled ks
       \<longrightarrow> (\<exists>b. snd (fetchMarketBundle P race symbol interval) = Fulfilled b
                \<and> bundle_trades b = slice_last 120 xs
                \<and> length (bundle_trades b) = min 120 (length xs)
                \<and> (symbol \<noteq> [] \<and> \<not> cancelled
                     \<longrightarrow> st_trades (snd (snd (refreshBundle P race cancelled symbol interval s)))
                           = slice_last 120 xs)))"
proof (intro conjI impI allI)
  show "fst (fetchMarketBundle P race symbol interval) =
     [tickerRequest symbol, depthRequest symbol, tradesRequest symbol,
      klinesRequest symbol interval]"
    by (rule fetchMarketBundle_requests)
next
  assume "\<exists>e. proxyTicker P (tickerRequest symbol) = Rejected e
            \<or> proxyDepth P (depthRequest symbol) = Rejected e
            \<or> proxyTrades P (tradesRequest symbol) = Rejected e
            \<or> proxyKlines P (klinesRequest symbol interval) = Rejected e"
  then obtain e' where rej: "snd (fetchMarketBundle P race symbol interval) = Rejected e'"
    using fetchMarketBundle_rejects by blast
  then show "\<exists>e'. snd (fetchMarketBundle P race symbol interval) = Rejected e'" ..
  note keep = refreshBundle_rejected_keeps [OF rej, of cancelled s]
  from keep show "st_ticker (snd (snd (refreshBundle P race cancelled symbol interval s))) = st_ticker s"
    by simp
  from keep show "st_depth (snd (snd (refreshBundle P race cancelled symbol interval s))) = st_depth s"
    by simp
  from keep show "st_trades (snd (snd (refreshBundle P race cancelled symbol interval s))) = st_trades s"
    by simp
  from keep show "st_klines (snd (snd (refreshBundle P race cancelled symbol interval s))) = st_klines s"
    by simp
next
  fix t d xs ks
  assume ok: "proxyTicker P (tickerRequest symbol) = Fulfilled t
         \<and> proxyDepth P (depthRequest symbol) = Fulfilled d
         \<and> proxyTrades P (tradesRequest symbol) = Fulfilled (Some (Envelope (Some xs)))
         \<and> proxyKlines P (klinesRequest symbol interval) = Fulfilled ks"
  define b where "b =
       \<lparr>bundle_ticker = (case t of None \<Rightarrow> None | Some t' \<Rightarrow> data_of t'),
        bundle_depth = (case d of None \<Rightarrow> None | Some d' \<Rightarrow> data_of d'),
        bundle_trades = slice_last 120 xs,
        bundle_klines = (case ks of None \<Rightarrow> [] | Some ks' \<Rightarrow> ks')\<rparr>"
  have ful: "snd (fetchMarketBundle P race symbol interval) = Fulfilled b"
    using ok fetchMarketBundle_fulfils [of P symbol t d "Some (Envelope (Some xs))" interval ks race]
    by (simp add: b_def)
  have tr: "bundle_trades b = slice_last 120 xs"
    by (simp add: b_def)
  have applied: "symbol \<noteq> [] \<and> \<not> cancelled
       \<longrightarrow> st_trades (snd (snd (refreshBundle P race cancelled symbol interval s)))
             = slice_last 120 xs"
    using refreshBundle_fulfilled_applies [OF ful, of cancelled s] tr by simp
  show "\<exists>b. snd (fetchMarketBundle P race symbol interval) = Fulfilled b
                \<and> bundle_trades b = slice_last 120 xs
                \<and> length (bundle_trades b) = min 120 (length xs)
                \<and> (symbol \<noteq> [] \<and> \<not> cancelled
                     \<longrightarrow> st_trades (snd (snd (refreshBundle P race cancelled symbol interval s)))
                           = slice_last 120 xs)"
    using ful tr applied by (intro exI [of _ b]) (simp add: slice_last_length)
qed

theorem fetchMarketBundle_all_or_nothing_witness:
  "(\<exists>e. snd (fetchMarketBundle (sampleProxy True 150) hd ''BTCINR'' ''1h'') = Rejected e)
   \<and> st_trades (snd (snd (refreshBundle (sampleProxy True 150) hd False ''BTCINR'' ''1h'' sampleState)))
       = [sampleTrade 7]
   \<and> st_klines (snd (snd (refreshBundle (sampleProxy True 150) hd False ''BTCINR'' ''1h'' sampleState)))
       = [sampleKline ''100'' ''11'']
   \<and> st_trades (snd (snd (refreshBundle (sampleProxy False 150) hd False ''BTCINR'' ''1h'' sampleState)))
       = map sampleTrade [30..<150]
   \<and> length (st_trades (snd (snd (refreshBundle (sampleProxy False 150) hd False ''BTCINR'' ''1h'' sampleState))))
       = 120"
proof -
  have rejected: "(\<exists>e. snd (fetchMarketBundle (sampleProxy True 150) hd ''BTCINR'' ''1h'') = Rejected e)
   \<and> st_trades (snd (snd (refreshBundle (sampleProxy True 150) hd False ''BTCINR'' ''1h'' sampleState)))
       = [sampleTrade 7]
   \<and> st_klines (snd (snd (refreshBundle (sampleProxy True 150) hd False ''BTCINR'' ''1h'' sampleState)))
       = [sampleKline ''100'' ''11'']"
    using fetchMarketBundle_all_or_nothing
      [of "sampleProxy True 150" hd "''BTCINR''" "''1h''" False sampleState,
        THEN conjunct2, THEN conjunct1]
    by (simp add: sampleProxy_def sampleState_def)
  have fulfilled:
    "proxyTicker (sampleProxy False 150) (tickerRequest ''BTCINR'') = Fulfilled None
     \<and> proxyDepth (sampleProxy False 150) (depthRequest ''BTCINR'') = Fulfilled None
     \<and> proxyTrades (sampleProxy False 150) (tradesRequest ''BTCINR'')
         = Fulfilled (Some (Envelope (Some (map sampleTrade [0..<150]))))
     \<and> proxyKlines (sampleProxy False 150) (klinesRequest ''BTCINR'' ''1h'') = Fulfilled (Some [])"
    by (simp add: sampleProxy_def)
  have kept: "slice_last 120 (map sampleTrade [0..<150]) = map sampleTrade [30..<150]"
    by (simp add: slice_last_def drop_map del: upt_rec_numeral)
  have "st_trades (snd (snd (refreshBundle (sampleProxy False 150) hd False ''BTCINR'' ''1h'' sampleState)))
       = slice_last 120 (map sampleTrade [0..<150])"
    using fetchMarketBundle_all_or_nothing
      [of "sampleProxy False 150" hd "''BTCINR''" "''1h''" False sampleState,
        THEN conjunct2, THEN conjunct2, rule_format, OF fulfilled]
    by (auto simp del: upt_rec_numeral)
  with kept have applied: "st_trades (snd (snd (refreshBundle (sampleProxy False 150) hd False ''BTCINR'' ''1h'' sampleState)))
       = map sampleTrade [30..<150]"
    by simp
  from rejected applied show ?thesis by (simp del: upt_rec_numeral)
qed

section \<open>Properties of the API Explorer submission\<close>

lemma execute_fields:
  "execute env st =
     (case queryPayload env st of
        Inl msg \<Rightarrow> ([], st\<lparr>ex_isLoading := False, ex_error := Some msg\<rparr>)
      | Inr q \<Rightarrow>
     (case bodyPayload env st of
        Inl msg \<Rightarrow> ([], st\<lparr>ex_isLoading := False, ex_error := Some msg\<rparr>)
      | Inr b \<Rightarrow>
     (case headersPayload env st of
        Inl msg \<Rightarrow> ([], st\<lparr>ex_isLoading := False, ex_error := Some msg\<rparr>)
      | Inr h \<Rightarrow>
     (case proxyRequest env (execute_payload st q b h) of
        Rejected msg \<Rightarrow>
          ([execute_payload st q b h], st\<lparr>ex_isLoading := False, ex_error := Some msg\<rparr>)
      | Fulfilled res \<Rightarrow>
          ([execute_payload st q b h],
           st\<lparr>ex_isLoading := False, ex_error := None,
              ex_response := JSON_stringify env res\<rparr>)))))"
  by (simp add: execute_def Let_def split: sum.split settled.split)

lemma execute_sent:
  assumes "queryPayload env st = Inr q" "bodyPayload env st = Inr b" "headersPayload env st = Inr h"
  shows "fst (execute env st) = [execute_payload st q b h]"
  using assms by (simp add: execute_fields split: settled.split)

lemma execute_not_sent:
  assumes "(\<exists>msg. queryPayload env st = Inl msg) \<or> (\<exists>msg. bodyPayload env st = Inl msg)
         \<or> (\<exists>msg. headersPayload env st = Inl msg)"
  shows "fst (execute env st) = [] \<and> (\<exists>msg. ex_error (snd (execute env st)) = Some msg)
       \<and> \<not> ex_isLoading (snd (execute env st))
       \<and> ex_response (snd (execute env st)) = ex_response st"
proof (cases "queryPayload env st")
  case (Inl msg)
  then show ?thesis by (simp add: execute_fields)
next
  case q: (Inr q)
  show ?thesis
  proof (cases "bodyPayload env st")
    case (Inl msg)
    with q show ?thesis by (simp add: execute_fields)
  next
    case b: (Inr b)
    show ?thesis
    proof (cases "headersPayload env st")
      case (Inl msg)
      with q b show ?thesis by (simp add: execute_fields)
    next
      case (Inr h)
      with q b assms show ?thesis by simp
    qed
  qed
qed

lemma execute_body_omitted:
  assumes "trim (ex_body st) = [] \<or> ex_method st = GET"
  shows "\<forall>p \<in> set (fst (execute env st)). pl_body p = None"
proof -
  have b: "bodyPayload env st = Inr None"
    using assms by (auto simp: bodyPayload_def)
  show ?thesis
  proof (cases "queryPayload env st")
    case (Inl msg)
    then show ?thesis by (simp add: execute_fields)
  next
    case q: (Inr q)
    show ?thesis
    proof (cases "headersPayload env st")
      case (Inl msg)
      with q b show ?thesis by (simp add: execute_fields)
    next
      case (Inr h)
      with q b show ?thesis
        using execute_sent [of env st q None h] by (simp add: execute_payload_def)
    qed
  qed
qed

lemma trim_blank: "trim t = [] \<longleftrightarrow> (\<forall>c \<in> set t. isWhiteSpace c)"
proof
  assume "trim t = []"
  then have "dropWhile isWhiteSpace (rev (dropWhile isWhiteSpace t)) = []"
    by (simp add: trim_def)
  then have "\<forall>c \<in> set (dropWhile isWhiteSpace t). isWhiteSpace c"
    by (simp add: dropWhile_eq_Nil_conv)
  moreover have "dropWhile isWhiteSpace t = [] \<or> \<not> isWhiteSpace (hd (dropWhile isWhiteSpace t))"
    using hd_dropWhile [of isWhiteSpace t] by blast
  ultimately have "dropWhile isWhiteSpace t = []"
    by (cases "dropWhile isWhiteSpace t") auto
  then show "\<forall>c \<in> set t. isWhiteSpace c"
    by (simp add: dropWhile_eq_Nil_conv)
next
  assume "\<forall>c \<in> set t. isWhiteSpace c"
  then have "dropWhile isWhiteSpace t = []"
    by (simp add: dropWhile_eq_Nil_conv)
  then show "trim t = []"
    unfolding trim_def by (simp only: rev.simps dropWhile.simps)
qed

text \<open>
  Claim C8 (as the code has it). On submission each field yields a part of the request: the
  query and the headers are \<open>{}\<close> when their text is blank (empty or white space only) and
  the parsed value otherwise; the body is left out when its text is blank or the method is
  GET, and is the parsed value otherwise. When every part is obtained, exactly one request
  is sent, with the method, path and target of the form and these parts. When a field that
  is parsed fails to parse (the query, the headers, or the body under a method other than
  GET), no request is sent, an error message is set, loading ends and the shown response is
  unchanged. A text is blank exactly when all its code units are white space.
\<close>

theorem execute_parses_fields:
  "(\<forall>q b h.
       (trim (ex_query st) = [] \<and> q = JObj []
        \<or> trim (ex_query st) \<noteq> [] \<and> JSON_parse env (ex_query st) = Inr q)
     \<and> ((trim (ex_body st) = [] \<or> ex_method st = GET) \<and> b = None
        \<or> trim (ex_body st) \<noteq> [] \<and> ex_method st \<noteq> GET
          \<and> (\<exists>v. JSON_parse env (ex_body st) = Inr v \<and> b = Some v))
     \<and> (trim (ex_headers st) = [] \<and> h = JObj []
        \<or> trim (ex_headers st) \<noteq> [] \<and> JSON_parse env (ex_headers st) = Inr h)
     \<longrightarrow> fst (execute env st) =
           [\<lparr>pl_method = ex_method st, pl_path = ex_path st,
             pl_target = Some (ex_target st), pl_query = Some q, pl_body = b,
             pl_headers = Some h\<rparr>])
   \<and> ((\<exists>msg. trim (ex_query st) \<noteq> [] \<and> JSON_parse env (ex_query st) = Inl msg)
       \<or> (\<exists>msg. trim (ex_body st) \<noteq> [] \<and> ex_method st \<noteq> GET
              \<and> JSON_parse env (ex_body st) = Inl msg)
       \<or> (\<exists>msg. trim (ex_headers st) \<noteq> [] \<and> JSON_parse env (ex_headers st) = Inl msg)
      \<longrightarrow> fst (execute env st) = []
          \<and> (\<exists>msg. ex_error (snd (execute env st)) = Some msg)
          \<and> \<not> ex_isLoading (snd (execute env st))
          \<and> ex_response (snd (execute env st)) = ex_response st)
   \<and> (trim t = [] \<longleftrightarrow> list_all isWhiteSpace t)"
proof (intro conjI impI allI)
  fix q b h
  assume parts:
    "(trim (ex_query st) = [] \<and> q = JObj []
        \<or> trim (ex_query st) \<noteq> [] \<and> JSON_parse env (ex_query st) = Inr q)
     \<and> ((trim (ex_body st) = [] \<or> ex_method st = GET) \<and> b = None
        \<or> trim (ex_body st) \<noteq> [] \<and> ex_method st \<noteq> GET
          \<and> (\<exists>v. JSON_parse env (ex_body st) = Inr v \<and> b = Some v))
     \<and> (trim (ex_headers st) = [] \<and> h = JObj []
        \<or> trim (ex_headers st) \<noteq> [] \<and> JSON_parse env (ex_headers st) = Inr h)"
  then have "queryPayload env st = Inr q"
    by (auto simp: queryPayload_def)
  moreover from parts have "bodyPayload env st = Inr b"
    by (auto simp: bodyPayload_def)
  moreover from parts have "headersPayload env st = Inr h"
    by (auto simp: headersPayload_def)
  ultimately have "fst (execute env st) = [execute_payload st q b h]"
    by (rule execute_sent)
  then show "fst (execute env st) =
           [\<lparr>pl_method = ex_method st, pl_path = ex_path st,
             pl_target = Some (ex_target st), pl_query = Some q, pl_body = b,
             pl_headers = Some h\<rparr>]"
    by (simp add: execute_payload_def)
next
  assume "(\<exists>msg. trim (ex_query st) \<noteq> [] \<and> JSON_parse env (ex_query st) = Inl msg)
       \<or> (\<exists>msg. trim (ex_body st) \<noteq> [] \<and> ex_method st \<noteq> GET
              \<and> JSON_parse env (ex_body st) = Inl msg)
       \<or> (\<exists>msg. trim (ex_headers st) \<noteq> [] \<and> JSON_parse env (ex_headers st) = Inl msg)"
  then have bad: "(\<exists>msg. queryPayload env st = Inl msg) \<or> (\<exists>msg. bodyPayload env st = Inl msg)
         \<or> (\<exists>msg. headersPayload env st = Inl msg)"
    by (auto simp: queryPayload_def bodyPayload_def headersPayload_def)
  note r = execute_not_sent [OF bad]
  from r show "fst (execute env st) = []" by simp
  from r show "\<exists>msg. ex_error (snd (execute env st)) = Some msg" by simp
  from r show "\<not> ex_isLoading (snd (execute env st))" by simp
  from r show "ex_response (snd (execute env st)) = ex_response st" by simp
next
  show "trim t = [] \<longleftrightarrow> list_all isWhiteSpace t"
    by (simp add: trim_blank list_all_iff)
qed

theorem execute_parses_fields_witness:
  "fst (execute sampleEnv (sampleExplorer GET (units ''[5]'') (units ''{bad'') []))
     = [\<lparr>pl_method = GET, pl_path = ''/v1/market/klines'', pl_target = Some Public,
         pl_query = Some (JArr [JNum 5]), pl_body = None, pl_headers = Some (JObj [])\<rparr>]
   \<and> fst (execute sampleEnv (sampleExplorer POST [160, 8195] (units '' [7] '') (units ''{}'')))
     = [\<lparr>pl_method = POST, pl_path = ''/v1/market/klines'', pl_target = Some Public,
         pl_query = Some (JObj []), pl_body = Some (JArr [JNum 7]),
         pl_headers = Some (JObj [])\<rparr>]
   \<and> fst (execute sampleEnv (sampleExplorer POST (units ''{}'') (units ''{bad'') (units ''{}'')))
       = []
   \<and> (\<exists>msg. ex_error (snd (execute sampleEnv
                (sampleExplorer POST (units ''{}'') (units ''{bad'') (units ''{}'')))) = Some msg)"
proof -
  have blank: "trim [] = []" "trim [160, 8195] = []"
    by (simp_all add: trim_def isWhiteSpace_def)
  have nonblank: "trim (units ''{}'') \<noteq> []" "trim (units ''[5]'') \<noteq> []"
    "trim (units ''{bad'') \<noteq> []" "trim (units '' [7] '') \<noteq> []"
    by (simp_all add: trim_def isWhiteSpace_def units_def)
  have parse: "sampleTextParse (units ''[5]'') = Inr (JArr [JNum 5])"
    "sampleTextParse (units '' [7] '') = Inr (JArr [JNum 7])"
    "sampleTextParse (units ''{}'') = Inr (JObj [])"
    "sampleTextParse (units ''{bad'') = Inl ''Unexpected token''"
    by (simp_all add: sampleTextParse_def units_def)
  have a: "fst (execute sampleEnv (sampleExplorer GET (units ''[5]'') (units ''{bad'') []))
     = [\<lparr>pl_method = GET, pl_path = ''/v1/market/klines'', pl_target = Some Public,
         pl_query = Some (JArr [JNum 5]), pl_body = None, pl_headers = Some (JObj [])\<rparr>]"
    using execute_parses_fields
      [of "sampleExplorer GET (units ''[5]'') (units ''{bad'') []" sampleEnv,
        THEN conjunct1, rule_format, of "JArr [JNum 5]" None "JObj []"]
      blank nonblank parse
    by (simp add: sampleExplorer_def sampleEnv_def)
  have b: "fst (execute sampleEnv (sampleExplorer POST [160, 8195] (units '' [7] '') (units ''{}'')))
     = [\<lparr>pl_method = POST, pl_path = ''/v1/market/klines'', pl_target = Some Public,
         pl_query = Some (JObj []), pl_body = Some (JArr [JNum 7]),
         pl_headers = Some (JObj [])\<rparr>]"
    using execute_parses_fields
      [of "sampleExplorer POST [160, 8195] (units '' [7] '') (units ''{}'')" sampleEnv,
        THEN conjunct1, rule_format, of "JObj []" "Some (JArr [JNum 7])" "JObj []"]
      blank nonblank parse
    by (simp add: sampleExplorer_def sampleEnv_def)
  have c: "fst (execute sampleEnv (sampleExplorer POST (units ''{}'') (units ''{bad'') (units ''{}'')))
       = []
   \<and> (\<exists>msg. ex_error (snd (execute sampleEnv
                (sampleExplorer POST (units ''{}'') (units ''{bad'') (units ''{}'')))) = Some msg)"
    using execute_parses_fields
      [of "sampleExplorer POST (units ''{}'') (units ''{bad'') (units ''{}'')" sampleEnv,
        THEN conjunct2, THEN conjunct1]
      nonblank parse
    by (simp add: sampleExplorer_def sampleEnv_def)
  from a b c show ?thesis by simp
qed

text \<open>
  Claim C8 as stated, refuted: an empty body under POST is not treated as \<open>{}\<close>; the
  request is sent without a body.
\<close>

theorem execute_empty_body_counterexample:
  "map pl_body (fst (execute sampleEnv (sampleExplorer POST (units ''{}'') [] (units ''{}''))))
     = [None]
   \<and> map pl_body (fst (execute sampleEnv (sampleExplorer POST (units ''{}'') [] (units ''{}''))))
       \<noteq> [Some (JObj [])]"
  by (simp add: execute_def queryPayload_def bodyPayload_def headersPayload_def
      execute_payload_def sampleExplorer_def sampleEnv_def sampleTextParse_def Let_def trim_def
      isWhiteSpace_def units_def)

section \<open>Properties of the feed subscriptions\<close>

lemma all_takes_bounded:
  "(\<forall>n \<le> length xs. P (take n xs)) \<longleftrightarrow> (\<forall>n. P (take n xs))"
proof
  assume bounded: "\<forall>n \<le> length xs. P (take n xs)"
  show "\<forall>n. P (take n xs)"
  proof
    fix n
    show "P (take n xs)"
    proof (cases "n \<le> length xs")
      case True
      with bounded show ?thesis by simp
    next
      case False
      from bounded have "P (take (length xs) xs)" by blast
      with False show ?thesis by simp
    qed
  qed
qed simp

lemma feed_inv_iff:
  "feed_inv s \<longleftrightarrow>
     fd_socketRef s
     \<and> (case fd_deps s of
          None \<Rightarrow> fd_cleanup s = None
        | Some d \<Rightarrow>
            (if fst d = [] then fd_cleanup s = None
             else \<exists>h. fd_cleanup s = Some (topics d, h)))
     \<and> subscribed (fd_calls s) = (case fd_cleanup s of None \<Rightarrow> [] | Some (ts, h) \<Rightarrow> [ts])
     \<and> listeners (fd_calls s) = (case fd_cleanup s of None \<Rightarrow> [] | Some (ts, h) \<Rightarrow> handlers h)
     \<and> (\<forall>n. length (subscribed (take n (fd_calls s))) \<le> 1
            \<and> length (listeners (take n (fd_calls s))) \<le> 4)"
proof -
  have pending: "(map_option fst (fd_cleanup s) = Some ts) = (\<exists>h. fd_cleanup s = Some (ts, h))"
    for ts
    by (cases "fd_cleanup s") auto
  have bounds: "(\<forall>n \<le> length (fd_calls s).
            length (subscribed (take n (fd_calls s))) \<le> 1
            \<and> length (listeners (take n (fd_calls s))) \<le> 4)
     = (\<forall>n. length (subscribed (take n (fd_calls s))) \<le> 1
            \<and> length (listeners (take n (fd_calls s))) \<le> 4)"
    by (rule all_takes_bounded
        [where P = "\<lambda>l. length (subscribed l) \<le> 1 \<and> length (listeners l) \<le> 4"])
  show ?thesis
    unfolding feed_inv_def pending bounds ..
qed

lemma subscribed_append:
  "subscribed (xs @ ys) = foldl apply_subscription (subscribed xs) ys"
  by (simp add: subscribed_def)

lemma listeners_append:
  "listeners (xs @ ys) = foldl apply_listener (listeners xs) ys"
  by (simp add: listeners_def)

lemma all_prefixes_append:
  assumes "\<forall>n. P (take n xs)" "\<forall>p \<in> set (prefixes ys). P (xs @ p)"
  shows "P (take n (xs @ ys))"
proof (cases "n \<le> length xs")
  case True
  then show ?thesis using assms(1) by simp
next
  case False
  have "take (n - length xs) ys \<in> set (prefixes ys)"
    by (simp add: in_set_prefixes take_is_prefix)
  with assms(2) have "P (xs @ take (n - length xs) ys)" by blast
  with False show ?thesis by simp
qed

lemma runCleanup_inv:
  assumes "feed_inv s"
  shows "feed_inv ((runCleanup s)\<lparr>fd_deps := None\<rparr>) \<and> fd_cleanup (runCleanup s) = None"
proof (cases "fd_cleanup s")
  case None
  with assms show ?thesis
    by (simp add: runCleanup_def feed_inv_iff)
next
  case (Some c)
  obtain ts h where c: "c = (ts, h)" by (cases c)
  from assms Some c have sub: "subscribed (fd_calls s) = [ts]"
    and lis: "listeners (fd_calls s) = handlers h"
    and pre: "\<forall>n. length (subscribed (take n (fd_calls s))) \<le> 1
            \<and> length (listeners (take n (fd_calls s))) \<le> 4"
    and sock: "fd_socketRef s"
    by (simp_all add: feed_inv_iff)
  let ?new = "Emit ''unsubscribe'' ts # detach h"
  have calls: "fd_calls (runCleanup s) = fd_calls s @ ?new"
    using Some c by (simp add: runCleanup_def)
  have "\<forall>p \<in> set (prefixes ?new).
          length (subscribed (fd_calls s @ p)) \<le> 1 \<and> length (listeners (fd_calls s @ p)) \<le> 4"
    by (simp add: subscribed_append listeners_append sub lis detach_def handlers_def)
  with pre have "\<And>n. length (subscribed (take n (fd_calls s @ ?new))) \<le> 1
            \<and> length (listeners (take n (fd_calls s @ ?new))) \<le> 4"
    by (intro all_prefixes_append
        [where P = "\<lambda>l. length (subscribed l) \<le> 1 \<and> length (listeners l) \<le> 4"]) auto
  moreover have "subscribed (fd_calls s @ ?new) = []"
    by (simp add: subscribed_append sub detach_def)
  moreover have "listeners (fd_calls s @ ?new) = []"
    by (simp add: listeners_append lis detach_def handlers_def)
  ultimately show ?thesis
    using Some c sock calls by (simp add: feed_inv_iff runCleanup_def)
qed

lemma subscribeEffect_inv:
  assumes "feed_inv (s\<lparr>fd_deps := None\<rparr>)" "fd_cleanup s = None"
  shows "feed_inv ((subscribeEffect d s)\<lparr>fd_deps := Some d\<rparr>)"
proof (cases "fst d = []")
  case True
  with assms show ?thesis
    by (simp add: subscribeEffect_def feed_inv_iff)
next
  case False
  from assms have sub: "subscribed (fd_calls s) = []"
    and lis: "listeners (fd_calls s) = []"
    and pre: "\<forall>n. length (subscribed (take n (fd_calls s))) \<le> 1
            \<and> length (listeners (take n (fd_calls s))) \<le> 4"
    and sock: "fd_socketRef s"
    by (simp_all add: feed_inv_iff)
  let ?new = "Emit ''subscribe'' (topics d) # attach (fd_runs s)"
  have "\<forall>p \<in> set (prefixes ?new).
          length (subscribed (fd_calls s @ p)) \<le> 1 \<and> length (listeners (fd_calls s @ p)) \<le> 4"
    by (simp add: subscribed_append listeners_append sub lis attach_def)
  with pre have "\<And>n. length (subscribed (take n (fd_calls s @ ?new))) \<le> 1
            \<and> length (listeners (take n (fd_calls s @ ?new))) \<le> 4"
    by (intro all_prefixes_append
        [where P = "\<lambda>l. length (subscribed l) \<le> 1 \<and> length (listeners l) \<le> 4"]) auto
  moreover have "subscribed (fd_calls s @ ?new) = [topics d]"
    by (simp add: subscribed_append sub attach_def)
  moreover have "listeners (fd_calls s @ ?new) = handlers (fd_runs s)"
    by (simp add: listeners_append lis attach_def handlers_def)
  ultimately show ?thesis
    using False sock by (simp add: feed_inv_iff subscribeEffect_def)
qed

lemma commitEffects_inv:
  assumes "feed_inv s"
  shows "feed_inv (commitEffects P contracts s)"
proof (cases "fd_deps s = Some (deps_of P contracts s)")
  case True
  with assms show ?thesis by (simp add: commitEffects_def)
next
  case False
  let ?d = "deps_of P contracts s"
  let ?c = "(runCleanup s)\<lparr>fd_deps := Some ?d\<rparr>"
  from runCleanup_inv [OF assms]
  have "feed_inv ((runCleanup s)\<lparr>fd_deps := None\<rparr>)" and none: "fd_cleanup (runCleanup s) = None"
    by simp_all
  then have "feed_inv (?c\<lparr>fd_deps := None\<rparr>)" and "fd_cleanup ?c = None"
    by simp_all
  then have "feed_inv ((subscribeEffect ?d ?c)\<lparr>fd_deps := Some ?d\<rparr>)"
    by (rule subscribeEffect_inv)
  moreover have "(subscribeEffect ?d ?c)\<lparr>fd_deps := Some ?d\<rparr> = subscribeEffect ?d ?c"
    by (simp add: subscribeEffect_def)
  ultimately show ?thesis using False by (simp add: commitEffects_def Let_def)
qed

lemma commitEffects_selection:
  "fd_selectedSymbol (commitEffects P contracts s) = fd_selectedSymbol s
   \<and> fd_interval (commitEffects P contracts s) = fd_interval s"
  by (simp add: commitEffects_def subscribeEffect_def runCleanup_def Let_def
      split: option.split prod.split)

lemma commitEffects_deps:
  "fd_deps (commitEffects P contracts s) = Some (deps_of P contracts (commitEffects P contracts s))"
proof -
  have same: "deps_of P contracts (commitEffects P contracts s) = deps_of P contracts s"
    using commitEffects_selection [of P contracts s] by (simp add: deps_of_def)
  have "fd_deps (commitEffects P contracts s) = Some (deps_of P contracts s)"
    by (simp add: commitEffects_def subscribeEffect_def Let_def)
  with same show ?thesis by simp
qed

lemma feed_inv_selection:
  "feed_inv (s\<lparr>fd_selectedSymbol := x\<rparr>) = feed_inv s"
  "feed_inv (s\<lparr>fd_interval := y\<rparr>) = feed_inv s"
  by (simp_all add: feed_inv_iff split: option.split)

lemma step_inv:
  assumes "feed_inv s" "fd_deps s = Some (deps_of P contracts s)"
  shows "feed_inv (step P contracts s e) \<and>
         fd_deps (step P contracts s e) = Some (deps_of P contracts (step P contracts s e))"
proof (cases e)
  case (SelectSymbol symbol)
  with assms show ?thesis
    by (simp add: commitEffects_inv commitEffects_deps feed_inv_selection)
next
  case (ChangeInterval v)
  with assms show ?thesis
    by (simp add: commitEffects_inv commitEffects_deps feed_inv_selection)
qed

lemma mount_inv:
  "feed_inv (mount P contracts c) \<and>
   fd_deps (mount P contracts c) = Some (deps_of P contracts (mount P contracts c))"
  unfolding mount_def
  by (intro conjI commitEffects_inv commitEffects_deps) (simp add: feed_inv_iff subscribed_def listeners_def)

lemma run_inv:
  assumes "feed_inv s" "fd_deps s = Some (deps_of P contracts s)"
  shows "feed_inv (foldl (step P contracts) s es) \<and>
         fd_deps (foldl (step P contracts) s es)
           = Some (deps_of P contracts (foldl (step P contracts) s es))"
  using assms
proof (induction es arbitrary: s)
  case Nil
  then show ?case by simp
next
  case (Cons e es)
  from step_inv [OF Cons.prems, of e] show ?case
    by (simp add: Cons.IH)
qed

lemma commitEffects_calls:
  assumes "fd_socketRef s"
  shows "fd_calls (commitEffects P contracts s) =
           fd_calls s @
           (if fd_deps s = Some (deps_of P contracts s) then []
            else (case fd_cleanup s of
                    None \<Rightarrow> []
                  | Some (ts, h) \<Rightarrow> Emit ''unsubscribe'' ts # detach h)
               @ (if fst (deps_of P contracts s) = [] then []
                  else Emit ''subscribe'' (topics (deps_of P contracts s)) # attach (fd_runs s)))"
  using assms
  by (simp add: commitEffects_def Let_def runCleanup_def subscribeEffect_def
      split: option.split prod.split)

lemma step_calls:
  assumes "fd_socketRef s" "fd_deps s = Some (deps_of P contracts s)"
  shows "fd_calls (step P contracts s e) =
           fd_calls s @
           (if deps_of P contracts (step P contracts s e) = deps_of P contracts s then []
            else (case fd_cleanup s of
                    None \<Rightarrow> []
                  | Some (ts, h) \<Rightarrow> Emit ''unsubscribe'' ts # detach h)
               @ (if fst (deps_of P contracts (step P contracts s e)) = [] then []
                  else Emit ''subscribe'' (topics (deps_of P contracts (step P contracts s e)))
                         # attach (fd_runs s)))"
proof -
  have commit: "fd_calls (commitEffects P contracts s') =
           fd_calls s @
           (if deps_of P contracts (commitEffects P contracts s') = deps_of P contracts s then []
            else (case fd_cleanup s of
                    None \<Rightarrow> []
                  | Some (ts, h) \<Rightarrow> Emit ''unsubscribe'' ts # detach h)
               @ (if fst (deps_of P contracts (commitEffects P contracts s')) = [] then []
                  else Emit ''subscribe'' (topics (deps_of P contracts (commitEffects P contracts s')))
                         # attach (fd_runs s)))"
    if sock: "fd_socketRef s'" and deps: "fd_deps s' = fd_deps s"
      and rest: "fd_calls s' = fd_calls s" "fd_cleanup s' = fd_cleanup s" "fd_runs s' = fd_runs s"
    for s'
  proof -
    have same: "deps_of P contracts (commitEffects P contracts s') = deps_of P contracts s'"
      using commitEffects_selection [of P contracts s'] by (simp add: deps_of_def)
    have "(fd_deps s' = Some (deps_of P contracts s'))
            = (deps_of P contracts s' = deps_of P contracts s)"
      using deps assms(2) by auto
    with commitEffects_calls [OF sock, of P contracts] show ?thesis
      by (simp add: same rest)
  qed
  show ?thesis
  proof (cases e)
    case (SelectSymbol symbol)
    show ?thesis
    proof (cases "symbol = fd_selectedSymbol s")
      case True
      with SelectSymbol show ?thesis by simp
    next
      case False
      with SelectSymbol commit [of "s\<lparr>fd_selectedSymbol := symbol\<rparr>"] assms(1)
      show ?thesis by simp
    qed
  next
    case (ChangeInterval v)
    show ?thesis
    proof (cases "v = fd_interval s")
      case True
      with ChangeInterval show ?thesis by simp
    next
      case False
      with ChangeInterval commit [of "s\<lparr>fd_interval := v\<rparr>"] assms(1)
      show ?thesis by simp
    qed
  qed
qed

lemma step_selection:
  "(fd_selectedSymbol (step P contracts s e), fd_interval (step P contracts s e))
     = select (fd_selectedSymbol s, fd_interval s) e"
proof (cases e)
  case (SelectSymbol x)
  then show ?thesis
    using commitEffects_selection [of P contracts "s\<lparr>fd_selectedSymbol := x\<rparr>"] by simp
next
  case (ChangeInterval v)
  then show ?thesis
    using commitEffects_selection [of P contracts "s\<lparr>fd_interval := v\<rparr>"] by simp
qed

lemma foldl_step_selection:
  "(fd_selectedSymbol (foldl (step P contracts) s es), fd_interval (foldl (step P contracts) s es))
     = foldl select (fd_selectedSymbol s, fd_interval s) es"
proof (induction es arbitrary: s)
  case Nil
  show ?case by simp
next
  case (Cons e es)
  from Cons.IH [of "step P contracts s e"] show ?case
    by (simp add: step_selection)
qed

lemma run_selection:
  "(fd_selectedSymbol (run P contracts initial events), fd_interval (run P contracts initial events))
     = selection_after contracts initial events"
proof -
  have "(fd_selectedSymbol (mount P contracts initial), fd_interval (mount P contracts initial))
     = (case initial of
          Some c \<Rightarrow> (c, ''1h'')
        | None \<Rightarrow> (case contracts of
                     [] \<Rightarrow> ([], ''1h'')
                   | item # _ \<Rightarrow> (ct_name (contract item), ''1h'')))"
    unfolding mount_def
    by (simp add: commitEffects_selection split: option.split list.split)
  then show ?thesis
    using foldl_step_selection [of P contracts "mount P contracts initial" events]
    by (simp add: run_def selection_after_def)
qed

lemma run_deps:
  "deps_of P contracts (run P contracts initial events)
     = deps_for P contracts (selection_after contracts initial events)"
  using run_selection [of P contracts initial events] by (simp add: deps_of_def)

lemma run_snoc:
  "run P contracts initial (events @ [e]) = step P contracts (run P contracts initial events) e"
  by (simp add: run_def)

text \<open>
  Claim C9. After mounting and any sequence of symbol and interval clicks: the dashboard's
  selection is the one the clicks made; at every point of the socket's call log at most one
  topic set is subscribed and at most four listeners are attached; at the end exactly the
  topic set of the selection made is subscribed (none when that selection has no symbol),
  with the four listeners of one effect run; and a further click extends the call log by
  nothing when it leaves the topics as they are, and otherwise by the unsubscription of the
  previous selection's topic set, the detaching of those very listeners, the subscription of
  the new selection's topic set and the attaching of new listeners, in this order. So
  switching A, B, A leaves exactly the topic set of A subscribed, and switching A, B that of
  B.
\<close>

theorem subscriptions_single_set:
  "(fd_selectedSymbol (run P contracts initial events),
    fd_interval (run P contracts initial events))
     = selection_after contracts initial events
   \<and> (\<forall>n. length (subscribed (take n (fd_calls (run P contracts initial events)))) \<le> 1
        \<and> length (listeners (take n (fd_calls (run P contracts initial events)))) \<le> 4)
   \<and> subscribed (fd_calls (run P contracts initial events))
       = (if fst (deps_for P contracts (selection_after contracts initial events)) = [] then []
          else [topics (deps_for P contracts (selection_after contracts initial events))])
   \<and> (\<exists>h h'.
        listeners (fd_calls (run P contracts initial events))
          = (if fst (deps_for P contracts (selection_after contracts initial events)) = []
             then [] else handlers h)
        \<and> fd_calls (run P contracts initial (events @ [e]))
          = fd_calls (run P contracts initial events) @
            (if deps_for P contracts (selection_after contracts initial (events @ [e]))
                = deps_for P contracts (selection_after contracts initial events)
             then []
             else (if fst (deps_for P contracts (selection_after contracts initial events)) = []
                   then []
                   else Emit ''unsubscribe''
                          (topics (deps_for P contracts
                             (selection_after contracts initial events)))
                        # detach h)
                @ (if fst (deps_for P contracts
                            (selection_after contracts initial (events @ [e]))) = []
                   then []
                   else Emit ''subscribe''
                          (topics (deps_for P contracts
                             (selection_after contracts initial (events @ [e]))))
                        # attach h')))"
proof -
  define S where "S = run P contracts initial events"
  define d where "d = deps_for P contracts (selection_after contracts initial events)"
  define S' where "S' = run P contracts initial (events @ [e])"
  define d' where "d' = deps_for P contracts (selection_after contracts initial (events @ [e]))"
  have dS: "deps_of P contracts S = d"
    by (simp add: S_def d_def run_deps)
  have step: "S' = step P contracts S e"
    by (simp add: S'_def S_def run_snoc)
  have dS': "deps_of P contracts (step P contracts S e) = d'"
    using run_deps [of P contracts initial "events @ [e]"]
    by (simp add: d'_def run_snoc S_def)
  have sel: "(fd_selectedSymbol S, fd_interval S) = selection_after contracts initial events"
    by (simp add: S_def run_selection)
  have inv: "feed_inv S" and deps: "fd_deps S = Some d"
    using run_inv [of "mount P contracts initial" P contracts events]
      mount_inv [of P contracts initial]
    by (simp_all add: S_def run_def dS [unfolded S_def run_def, symmetric])
  from inv have sock: "fd_socketRef S"
    and bound: "\<forall>n. length (subscribed (take n (fd_calls S))) \<le> 1
        \<and> length (listeners (take n (fd_calls S))) \<le> 4"
    and sub0: "subscribed (fd_calls S) = (case fd_cleanup S of None \<Rightarrow> [] | Some (ts, h) \<Rightarrow> [ts])"
    and lis0: "listeners (fd_calls S)
                 = (case fd_cleanup S of None \<Rightarrow> [] | Some (ts, h) \<Rightarrow> handlers h)"
    by (simp_all add: feed_inv_iff)
  have calls: "fd_calls S' =
           fd_calls S @
           (if d' = d then []
            else (case fd_cleanup S of
                    None \<Rightarrow> []
                  | Some (ts, h) \<Rightarrow> Emit ''unsubscribe'' ts # detach h)
               @ (if fst d' = [] then []
                  else Emit ''subscribe'' (topics d') # attach (fd_runs S)))"
    using step_calls [OF sock, of P contracts e] deps by (simp add: dS dS' step)
  have rest: "subscribed (fd_calls S) = (if fst d = [] then [] else [topics d])
    \<and> (\<exists>h h'. listeners (fd_calls S) = (if fst d = [] then [] else handlers h)
         \<and> fd_calls S' =
         fd_calls S @
         (if d' = d then []
          else (if fst d = [] then [] else Emit ''unsubscribe'' (topics d) # detach h)
             @ (if fst d' = [] then [] else Emit ''subscribe'' (topics d') # attach h')))"
  proof (cases "fst d = []")
    case True
    with inv deps have none: "fd_cleanup S = None" by (simp add: feed_inv_iff)
    have "listeners (fd_calls S) = (if fst d = [] then [] else handlers 0)
         \<and> fd_calls S' =
         fd_calls S @
         (if d' = d then []
          else (if fst d = [] then [] else Emit ''unsubscribe'' (topics d) # detach 0)
             @ (if fst d' = [] then [] else Emit ''subscribe'' (topics d') # attach (fd_runs S)))"
      using calls none True lis0 by simp
    then have "\<exists>h h'. listeners (fd_calls S) = (if fst d = [] then [] else handlers h)
         \<and> fd_calls S' =
         fd_calls S @
         (if d' = d then []
          else (if fst d = [] then [] else Emit ''unsubscribe'' (topics d) # detach h)
             @ (if fst d' = [] then [] else Emit ''subscribe'' (topics d') # attach h'))"
      by blast
    with True none sub0 show ?thesis by simp
  next
    case False
    with inv deps obtain h where some: "fd_cleanup S = Some (topics d, h)"
      by (auto simp: feed_inv_iff)
    have "listeners (fd_calls S) = (if fst d = [] then [] else handlers h)
         \<and> fd_calls S' =
         fd_calls S @
         (if d' = d then []
          else (if fst d = [] then [] else Emit ''unsubscribe'' (topics d) # detach h)
             @ (if fst d' = [] then [] else Emit ''subscribe'' (topics d') # attach (fd_runs S)))"
      using calls some False lis0 by simp
    then have "\<exists>h h'. listeners (fd_calls S) = (if fst d = [] then [] else handlers h)
         \<and> fd_calls S' =
         fd_calls S @
         (if d' = d then []
          else (if fst d = [] then [] else Emit ''unsubscribe'' (topics d) # detach h)
             @ (if fst d' = [] then [] else Emit ''subscribe'' (topics d') # attach h'))"
      by blast
    with False some sub0 show ?thesis by simp
  qed
  with bound sel show ?thesis
    unfolding S_def d_def S'_def d'_def by simp
qed

theorem subscriptions_single_set_witness:
  "subscribed (fd_calls (run sampleOps sampleContracts (Some ''BTCINR'')
       [SelectSymbol ''ETHINR'']))
     = [[''ethinr@depth_0.5'', ''ethinr@aggTrade'', ''ethinr@ticker'', ''ethinr@kline_1h'']]
   \<and> subscribed (fd_calls (run sampleOps sampleContracts (Some ''BTCINR'')
       [SelectSymbol ''ETHINR'', SelectSymbol ''BTCINR'']))
     = [[''btcinr@depth_0.1'', ''btcinr@aggTrade'', ''btcinr@ticker'', ''btcinr@kline_1h'']]
   \<and> subscribed (fd_calls (run sampleOps sampleContracts (Some ''BTCINR'')
       [SelectSymbol ''ETHINR'', ChangeInterval ''5m'']))
     = [[''ethinr@depth_0.5'', ''ethinr@aggTrade'', ''ethinr@ticker'', ''ethinr@kline_5m'']]
   \<and> fd_calls (run sampleOps sampleContracts (Some ''BTCINR'')
       [SelectSymbol ''ETHINR'', SelectSymbol ''BTCINR''])
     = Emit ''subscribe'' (topics (''btcinr'', ''0.1'', ''1h'')) # attach 0
       @ Emit ''unsubscribe'' (topics (''btcinr'', ''0.1'', ''1h'')) # detach 0
       @ Emit ''subscribe'' (topics (''ethinr'', ''0.5'', ''1h'')) # attach 1
       @ Emit ''unsubscribe'' (topics (''ethinr'', ''0.5'', ''1h'')) # detach 1
       @ Emit ''subscribe'' (topics (''btcinr'', ''0.1'', ''1h'')) # attach 2"
proof -
  have d1: "deps_for sampleOps sampleContracts
        (selection_after sampleContracts (Some ''BTCINR'') [SelectSymbol ''ETHINR''])
      = (''ethinr'', ''0.5'', ''1h'')"
    by code_simp
  have d2: "deps_for sampleOps sampleContracts
        (selection_after sampleContracts (Some ''BTCINR'')
           [SelectSymbol ''ETHINR'', SelectSymbol ''BTCINR''])
      = (''btcinr'', ''0.1'', ''1h'')"
    by code_simp
  have d3: "deps_for sampleOps sampleContracts
        (selection_after sampleContracts (Some ''BTCINR'')
           [SelectSymbol ''ETHINR'', ChangeInterval ''5m''])
      = (''ethinr'', ''0.5'', ''5m'')"
    by code_simp
  have a: "subscribed (fd_calls (run sampleOps sampleContracts (Some ''BTCINR'')
       [SelectSymbol ''ETHINR'']))
     = [[''ethinr@depth_0.5'', ''ethinr@aggTrade'', ''ethinr@ticker'', ''ethinr@kline_1h'']]"
    using subscriptions_single_set
      [of sampleOps sampleContracts "Some ''BTCINR''" "[SelectSymbol ''ETHINR'']",
        THEN conjunct2, THEN conjunct2, THEN conjunct1]
    unfolding d1 by (simp add: topics_def)
  have b: "subscribed (fd_calls (run sampleOps sampleContracts (Some ''BTCINR'')
       [SelectSymbol ''ETHINR'', SelectSymbol ''BTCINR'']))
     = [[''btcinr@depth_0.1'', ''btcinr@aggTrade'', ''btcinr@ticker'', ''btcinr@kline_1h'']]"
    using subscriptions_single_set
      [of sampleOps sampleContracts "Some ''BTCINR''"
        "[SelectSymbol ''ETHINR'', SelectSymbol ''BTCINR'']",
        THEN conjunct2, THEN conjunct2, THEN conjunct1]
    unfolding d2 by (simp add: topics_def)
  have c: "subscribed (fd_calls (run sampleOps sampleContracts (Some ''BTCINR'')
       [SelectSymbol ''ETHINR'', ChangeInterval ''5m'']))
     = [[''ethinr@depth_0.5'', ''ethinr@aggTrade'', ''ethinr@ticker'', ''ethinr@kline_5m'']]"
    using subscriptions_single_set
      [of sampleOps sampleContracts "Some ''BTCINR''"
        "[SelectSymbol ''ETHINR'', ChangeInterval ''5m'']",
        THEN conjunct2, THEN conjunct2, THEN conjunct1]
    unfolding d3 by (simp add: topics_def)
  have log: "fd_calls (run sampleOps sampleContracts (Some ''BTCINR'')
       [SelectSymbol ''ETHINR'', SelectSymbol ''BTCINR''])
     = Emit ''subscribe'' (topics (''btcinr'', ''0.1'', ''1h'')) # attach 0
       @ Emit ''unsubscribe'' (topics (''btcinr'', ''0.1'', ''1h'')) # detach 0
       @ Emit ''subscribe'' (topics (''ethinr'', ''0.5'', ''1h'')) # attach 1
       @ Emit ''unsubscribe'' (topics (''ethinr'', ''0.5'', ''1h'')) # detach 1
       @ Emit ''subscribe'' (topics (''btcinr'', ''0.1'', ''1h'')) # attach 2"
    by code_simp
  from a b c log show ?thesis by blast
qed

section \<open>Properties of the proxy route\<close>

lemma parse_method_issues: "parse_method v = Inl issues \<Longrightarrow> issues \<noteq> []"
  by (auto simp: parse_method_def split: option.splits json.splits if_splits)

lemma parse_path_issues: "parse_path v = Inl issues \<Longrightarrow> issues \<noteq> []"
  by (auto simp: parse_path_def split: option.splits json.splits if_splits)

lemma parse_target_issues: "parse_target v = Inl issues \<Longrightarrow> issues \<noteq> []"
  by (auto simp: parse_target_def split: option.splits json.splits if_splits)

lemma parse_query_issues: "parse_query v = Inl issues \<Longrightarrow> issues \<noteq> []"
  by (auto simp: parse_query_def split: option.splits json.splits list.splits)

lemma parse_headers_issues: "parse_headers v = Inl issues \<Longrightarrow> issues \<noteq> []"
  by (auto simp: parse_headers_def split: option.splits json.splits list.splits)

lemma parse_body_issues: "parse_body v = Inl issues \<Longrightarrow> issues \<noteq> []"
  by (auto simp: parse_body_def split: option.splits json.splits)

lemma issues_of_Inl: "r = Inl issues \<Longrightarrow> issues_of r = issues"
  by (simp add: issues_of_def)

lemma safeParse_object:
  "safeParse (JObj kvs) =
     (if isl (parse_method (lookup kvs ''method'')) \<or> isl (parse_path (lookup kvs ''path''))
         \<or> isl (parse_target (lookup kvs ''target'')) \<or> isl (parse_query (lookup kvs ''query''))
         \<or> isl (parse_headers (lookup kvs ''headers'')) \<or> isl (parse_body (lookup kvs ''body''))
      then Inl (issues_of (parse_method (lookup kvs ''method''))
                @ issues_of (parse_path (lookup kvs ''path''))
                @ issues_of (parse_target (lookup kvs ''target''))
                @ issues_of (parse_query (lookup kvs ''query''))
                @ issues_of (parse_headers (lookup kvs ''headers''))
                @ issues_of (parse_body (lookup kvs ''body'')))
      else Inr \<lparr>rq_method = projr (parse_method (lookup kvs ''method'')),
                rq_path = projr (parse_path (lookup kvs ''path'')),
                rq_target = projr (parse_target (lookup kvs ''target'')),
                rq_query = projr (parse_query (lookup kvs ''query'')),
                rq_headers = projr (parse_headers (lookup kvs ''headers'')),
                rq_body = projr (parse_body (lookup kvs ''body''))\<rparr>)"
  by (simp add: safeParse_def Let_def split: sum.split)

lemma safeParse_issues:
  assumes "safeParse raw = Inl issues"
  shows "issues \<noteq> []"
proof (cases raw)
  case (JObj kvs)
  let ?m = "parse_method (lookup kvs ''method'')"
  let ?p = "parse_path (lookup kvs ''path'')"
  let ?t = "parse_target (lookup kvs ''target'')"
  let ?q = "parse_query (lookup kvs ''query'')"
  let ?h = "parse_headers (lookup kvs ''headers'')"
  let ?b = "parse_body (lookup kvs ''body'')"
  from assms JObj have bad: "isl ?m \<or> isl ?p \<or> isl ?t \<or> isl ?q \<or> isl ?h \<or> isl ?b"
    and all: "issues = issues_of ?m @ issues_of ?p @ issues_of ?t @ issues_of ?q @ issues_of ?h
                  @ issues_of ?b"
    by (auto simp: safeParse_object split: if_splits)
  have "issues_of ?m \<noteq> []" if "isl ?m"
    using that parse_method_issues by (cases ?m) (auto simp: issues_of_def)
  moreover have "issues_of ?p \<noteq> []" if "isl ?p"
    using that parse_path_issues by (cases ?p) (auto simp: issues_of_def)
  moreover have "issues_of ?t \<noteq> []" if "isl ?t"
    using that parse_target_issues by (cases ?t) (auto simp: issues_of_def)
  moreover have "issues_of ?q \<noteq> []" if "isl ?q"
    using that parse_query_issues by (cases ?q) (auto simp: issues_of_def)
  moreover have "issues_of ?h \<noteq> []" if "isl ?h"
    using that parse_headers_issues by (cases ?h) (auto simp: issues_of_def)
  moreover have "issues_of ?b \<noteq> []" if "isl ?b"
    using that parse_body_issues by (cases ?b) (auto simp: issues_of_def)
  ultimately show ?thesis using bad all by auto
qed (use assms in \<open>auto simp: safeParse_def\<close>)

lemma method_conforms:
  "\<not> isl (parse_method v) \<longleftrightarrow>
     (case v of Some (JStr s) \<Rightarrow> s \<in> set [''GET'', ''POST'', ''PUT'', ''DELETE'', ''PATCH'']
      | _ \<Rightarrow> False)"
  by (simp add: parse_method_def split: option.split json.split)

lemma path_conforms:
  "\<not> isl (parse_path v) \<longleftrightarrow>
     (case v of Some (JStr s) \<Rightarrow> (case s of c # _ \<Rightarrow> c = CHR ''/'' | [] \<Rightarrow> False)
      | _ \<Rightarrow> False)"
  by (simp add: parse_path_def startsWith_def split: option.split json.split list.split)

lemma target_conforms:
  "\<not> isl (parse_target v) \<longleftrightarrow>
     (case v of None \<Rightarrow> True | Some (JStr s) \<Rightarrow> s = ''public'' \<or> s = ''private''
      | Some _ \<Rightarrow> False)"
  by (simp add: parse_target_def split: option.split json.split)

lemma query_conforms:
  "\<not> isl (parse_query v) \<longleftrightarrow>
     (case v of None \<Rightarrow> True | Some (JObj q) \<Rightarrow> list_all (\<lambda>(k, x). is_primitive x) q
      | Some _ \<Rightarrow> False)"
proof -
  have key: "(filter (\<lambda>(k, x). \<not> is_primitive x) q = []) = list_all (\<lambda>(k, x). is_primitive x) q"
    for q
    by (induction q) auto
  have "(\<not> isl (case filter (\<lambda>(k, x). \<not> is_primitive x) q of
                   [] \<Rightarrow> Inr q
                 | bad \<Rightarrow> Inl (map (\<lambda>(k, x). ZodIssue ''invalid_union'' [''query'', k]) bad)))
          = list_all (\<lambda>(k, x). is_primitive x) q" for q
    using key [of q] by (cases "filter (\<lambda>(k, x). \<not> is_primitive x) q") simp_all
  then show ?thesis
    by (simp add: parse_query_def split: option.split json.split)
qed

lemma headers_conforms:
  "\<not> isl (parse_headers v) \<longleftrightarrow>
     (case v of None \<Rightarrow> True | Some (JObj h) \<Rightarrow> list_all (\<lambda>(k, x). string_of x \<noteq> None) h
      | Some _ \<Rightarrow> False)"
proof -
  have key: "(filter (\<lambda>(k, x). string_of x = None) h = [])
          = list_all (\<lambda>(k, x). string_of x \<noteq> None) h" for h
    by (induction h) auto
  have "(\<not> isl (case filter (\<lambda>(k, x). string_of x = None) h of
                   [] \<Rightarrow> Inr (map (\<lambda>(k, x). (k, case string_of x of Some s \<Rightarrow> s | None \<Rightarrow> [])) h)
                 | bad \<Rightarrow> Inl (map (\<lambda>(k, x). ZodIssue ''invalid_type'' [''headers'', k]) bad)))
          = list_all (\<lambda>(k, x). string_of x \<noteq> None) h" for h
    using key [of h] by (cases "filter (\<lambda>(k, x). string_of x = None) h") simp_all
  then show ?thesis
    by (simp add: parse_headers_def split: option.split json.split)
qed

lemma body_conforms:
  "\<not> isl (parse_body v) \<longleftrightarrow>
     (case v of None \<Rightarrow> True | Some (JStr s) \<Rightarrow> True | Some (JObj b) \<Rightarrow> True
      | Some _ \<Rightarrow> False)"
  by (simp add: parse_body_def split: option.split json.split)

lemma safeParse_conforms: "conforms raw \<longleftrightarrow> \<not> isl (safeParse raw)"
proof (cases raw)
  case (JObj kvs)
  then show ?thesis
    unfolding conforms_def
    by (simp add: safeParse_object method_conforms [symmetric] path_conforms [symmetric]
        target_conforms [symmetric] query_conforms [symmetric] headers_conforms [symmetric]
        body_conforms [symmetric])
qed (simp_all add: conforms_def safeParse_def)

lemma respond_400: "respond b 400 = \<lparr>http_status = 400, json_body = b\<rparr>"
  by (simp add: respond_def NextResponse_json_def null_body_status_def)

text \<open>
  Claim C3. A request body that violates the schema is answered with HTTP 400 and a JSON
  body holding the error string and a non-empty list of issues, and no upstream request is
  issued.
\<close>

theorem POST_rejects_invalid_payload:
  "\<not> conforms raw \<longrightarrow>
     (\<exists>issues. issues \<noteq> []
        \<and> POST_handler env (Inr raw) =
            (\<lparr>http_status = 400,
              json_body = InvalidPayload ''Invalid request payload'' issues\<rparr>, []))"
proof
  assume "\<not> conforms raw"
  then obtain issues where bad: "safeParse raw = Inl issues"
    by (cases "safeParse raw") (auto simp: safeParse_conforms)
  then have "issues \<noteq> []" by (rule safeParse_issues)
  moreover have "POST_handler env (Inr raw) =
            (\<lparr>http_status = 400,
              json_body = InvalidPayload ''Invalid request payload'' issues\<rparr>, [])"
    using bad by (simp add: POST_handler_def respond_400)
  ultimately show "\<exists>issues. issues \<noteq> []
        \<and> POST_handler env (Inr raw) =
            (\<lparr>http_status = 400,
              json_body = InvalidPayload ''Invalid request payload'' issues\<rparr>, [])"
    by blast
qed

theorem POST_rejects_invalid_payload_witness:
  "\<not> conforms (sampleRaw ''GET'' ''v1/exchange'')
   \<and> \<not> conforms (sampleRaw ''FETCH'' ''/v1/exchange'')
   \<and> (\<exists>issues. issues \<noteq> []
        \<and> POST_handler (sampleRoute 200 ''OK'' ''[5]'') (Inr (sampleRaw ''GET'' ''v1/exchange'')) =
            (\<lparr>http_status = 400,
              json_body = InvalidPayload ''Invalid request payload'' issues\<rparr>, []))
   \<and> (\<exists>issues. issues \<noteq> []
        \<and> POST_handler (sampleRoute 200 ''OK'' ''[5]'') (Inr (sampleRaw ''FETCH'' ''/v1/exchange'')) =
            (\<lparr>http_status = 400,
              json_body = InvalidPayload ''Invalid request payload'' issues\<rparr>, []))"
proof -
  have a: "\<not> conforms (sampleRaw ''GET'' ''v1/exchange'')"
    by (simp add: conforms_def sampleRaw_def lookup_def)
  have b: "\<not> conforms (sampleRaw ''FETCH'' ''/v1/exchange'')"
    by (simp add: conforms_def sampleRaw_def lookup_def)
  from a b
    POST_rejects_invalid_payload [of "sampleRaw ''GET'' ''v1/exchange''" "sampleRoute 200 ''OK'' ''[5]''"]
    POST_rejects_invalid_payload [of "sampleRaw ''FETCH'' ''/v1/exchange''" "sampleRoute 200 ''OK'' ''[5]''"]
  show ?thesis by blast
qed

lemma respond_carries_body:
  assumes "200 \<le> st" "st \<le> 599" "\<not> null_body_status st"
  shows "respond b st = \<lparr>http_status = st, json_body = b\<rparr>"
  using assms by (simp add: respond_def NextResponse_json_def)

lemma respond_null_body:
  assumes "null_body_status st"
  shows "http_status (respond b st) = 500 \<and> (\<exists>msg. json_body (respond b st) = ErrorBody msg)"
  using assms by (simp add: respond_def NextResponse_json_def caught_def)

lemma POST_handler_completed:
  assumes "safeParse raw = Inr d" "forwardRequest env d = Inr fw"
    "rt_fetch env fw = Inr response" "up_text response = Inr text"
  shows "POST_handler env (Inr raw) =
     (respond (Mirrored (up_status response) (up_statusText response) (decode env text))
        (up_status response), [fw])"
  using assms by (simp add: POST_handler_def)

text \<open>
  For an upstream status that may carry a body (200 to 599 except 204, 205 and 304): the
  route answers with the upstream status, and the body's \<open>status\<close> field is that
  status.
\<close>

theorem POST_mirrors_body_status:
  "safeParse raw = Inr d \<and> forwardRequest env d = Inr fw
     \<and> rt_fetch env fw = Inr response \<and> up_text response = Inr text
     \<and> 200 \<le> up_status response \<and> up_status response \<le> 599
     \<and> \<not> null_body_status (up_status response)
   \<longrightarrow> POST_handler env (Inr raw) =
         (\<lparr>http_status = up_status response,
           json_body = Mirrored (up_status response) (up_statusText response) (decode env text)\<rparr>,
          [fw])"
  by (auto simp: POST_handler_completed respond_carries_body)

theorem POST_mirrors_body_status_witness:
  "POST_handler (sampleRoute 502 ''Bad Gateway'' ''<html>'') (Inr (sampleRaw ''GET'' ''/v1/exchange''))
     = (\<lparr>http_status = 502, json_body = Mirrored 502 ''Bad Gateway'' (JStr ''<html>'')\<rparr>,
        [\<lparr>fw_url = \<lparr>url_location = ''https://public.example/v1/exchange'',
                     url_searchParams = []\<rparr>,
          fw_method = GET,
          fw_headers = [(''accept'', ''application/json''),
                        (''content-type'', ''application/json'')],
          fw_body = None\<rparr>])"
proof -
  let ?env = "sampleRoute 502 ''Bad Gateway'' ''<html>''"
  let ?d = "\<lparr>rq_method = GET, rq_path = ''/v1/exchange'', rq_target = Public, rq_query = [],
             rq_headers = [], rq_body = None\<rparr>"
  let ?fw = "\<lparr>fw_url = \<lparr>url_location = ''https://public.example/v1/exchange'',
                     url_searchParams = []\<rparr>,
          fw_method = GET,
          fw_headers = [(''accept'', ''application/json''),
                        (''content-type'', ''application/json'')],
          fw_body = None\<rparr>"
  let ?r = "\<lparr>up_status = 502, up_statusText = ''Bad Gateway'', up_text = Inr ''<html>''\<rparr>"
  have "safeParse (sampleRaw ''GET'' ''/v1/exchange'') = Inr ?d"
    by code_simp
  moreover have "forwardRequest ?env ?d = Inr ?fw"
    by (simp add: forwardRequest_def sampleRoute_def searchParams_def)
  moreover have "rt_fetch ?env ?fw = Inr ?r"
    by (simp add: sampleRoute_def)
  moreover have "decode ?env ''<html>'' = JStr ''<html>''"
    by (simp add: decode_def sampleRoute_def sampleParse_def)
  ultimately show ?thesis
    using POST_mirrors_body_status [of "sampleRaw ''GET'' ''/v1/exchange''" ?d ?env ?fw ?r "''<html>''"]
    by (simp add: null_body_status_def)
qed

text \<open>
  For an upstream status that may carry a body: \<open>data\<close> is null for an empty upstream
  body, the parsed value for a body that parses, and the raw text for a non-empty body that
  does not parse.
\<close>

theorem POST_decodes_body:
  "safeParse raw = Inr d \<and> forwardRequest env d = Inr fw
     \<and> rt_fetch env fw = Inr response \<and> up_text response = Inr text
     \<and> 200 \<le> up_status response \<and> up_status response \<le> 599
     \<and> \<not> null_body_status (up_status response)
   \<longrightarrow> (\<exists>data. json_body (fst (POST_handler env (Inr raw)))
                   = Mirrored (up_status response) (up_statusText response) data
          \<and> (text = [] \<longrightarrow> data = JNull)
          \<and> (\<forall>v. text \<noteq> [] \<and> rt_parse env text = Inr v \<longrightarrow> data = v)
          \<and> (\<forall>msg. text \<noteq> [] \<and> rt_parse env text = Inl msg \<longrightarrow> data = JStr text))"
proof
  assume h: "safeParse raw = Inr d \<and> forwardRequest env d = Inr fw
     \<and> rt_fetch env fw = Inr response \<and> up_text response = Inr text
     \<and> 200 \<le> up_status response \<and> up_status response \<le> 599
     \<and> \<not> null_body_status (up_status response)"
  then have "json_body (fst (POST_handler env (Inr raw)))
       = Mirrored (up_status response) (up_statusText response) (decode env text)"
    by (simp add: POST_handler_completed respond_carries_body)
  moreover have "text = [] \<longrightarrow> decode env text = JNull"
    by (simp add: decode_def)
  moreover have "\<forall>v. text \<noteq> [] \<and> rt_parse env text = Inr v \<longrightarrow> decode env text = v"
    by (simp add: decode_def)
  moreover have "\<forall>msg. text \<noteq> [] \<and> rt_parse env text = Inl msg \<longrightarrow> decode env text = JStr text"
    by (simp add: decode_def)
  ultimately show "\<exists>data. json_body (fst (POST_handler env (Inr raw)))
                   = Mirrored (up_status response) (up_statusText response) data
          \<and> (text = [] \<longrightarrow> data = JNull)
          \<and> (\<forall>v. text \<noteq> [] \<and> rt_parse env text = Inr v \<longrightarrow> data = v)
          \<and> (\<forall>msg. text \<noteq> [] \<and> rt_parse env text = Inl msg \<longrightarrow> data = JStr text)"
    by blast
qed

theorem POST_decodes_body_witness:
  "json_body (fst (POST_handler (sampleRoute 200 ''OK'' '''') (Inr (sampleRaw ''GET'' ''/v1/exchange''))))
     = Mirrored 200 ''OK'' JNull"
proof -
  let ?env = "sampleRoute 200 ''OK'' ''''"
  let ?d = "\<lparr>rq_method = GET, rq_path = ''/v1/exchange'', rq_target = Public, rq_query = [],
             rq_headers = [], rq_body = None\<rparr>"
  let ?fw = "\<lparr>fw_url = \<lparr>url_location = ''https://public.example/v1/exchange'',
                     url_searchParams = []\<rparr>,
          fw_method = GET,
          fw_headers = [(''accept'', ''application/json''),
                        (''content-type'', ''application/json'')],
          fw_body = None\<rparr>"
  let ?r = "\<lparr>up_status = 200, up_statusText = ''OK'', up_text = Inr ''''\<rparr>"
  have "safeParse (sampleRaw ''GET'' ''/v1/exchange'') = Inr ?d"
    by code_simp
  moreover have "forwardRequest ?env ?d = Inr ?fw"
    by (simp add: forwardRequest_def sampleRoute_def searchParams_def)
  moreover have "rt_fetch ?env ?fw = Inr ?r"
    by (simp add: sampleRoute_def)
  ultimately show ?thesis
    using POST_decodes_body [of "sampleRaw ''GET'' ''/v1/exchange''" ?d ?env ?fw ?r "''''"]
    by (auto simp: null_body_status_def)
qed

text \<open>
  For an upstream status that may not carry a body (204, 205, 304) or lies outside 200 to
  599, a completed upstream fetch is answered with 500 and an error body.
\<close>

theorem POST_unmirrorable_status:
  "safeParse raw = Inr d \<and> forwardRequest env d = Inr fw
     \<and> rt_fetch env fw = Inr response \<and> up_text response = Inr text
     \<and> (up_status response < 200 \<or> 599 < up_status response
          \<or> null_body_status (up_status response))
   \<longrightarrow> http_status (fst (POST_handler env (Inr raw))) = 500
       \<and> (\<exists>msg. json_body (fst (POST_handler env (Inr raw))) = ErrorBody msg)
       \<and> snd (POST_handler env (Inr raw)) = [fw]"
proof
  assume h: "safeParse raw = Inr d \<and> forwardRequest env d = Inr fw
     \<and> rt_fetch env fw = Inr response \<and> up_text response = Inr text
     \<and> (up_status response < 200 \<or> 599 < up_status response
          \<or> null_body_status (up_status response))"
  then have run: "POST_handler env (Inr raw) =
     (respond (Mirrored (up_status response) (up_statusText response) (decode env text))
        (up_status response), [fw])"
    by (simp add: POST_handler_completed)
  from h have "\<exists>msg. respond (Mirrored (up_status response) (up_statusText response)
                    (decode env text)) (up_status response)
      = caught msg"
    by (auto simp: respond_def NextResponse_json_def)
  with run show "http_status (fst (POST_handler env (Inr raw))) = 500
       \<and> (\<exists>msg. json_body (fst (POST_handler env (Inr raw))) = ErrorBody msg)
       \<and> snd (POST_handler env (Inr raw)) = [fw]"
    by (auto simp: caught_def)
qed

theorem POST_unmirrorable_status_witness:
  "http_status (fst (POST_handler (sampleRoute 205 ''Reset Content'' '''')
                       (Inr (sampleRaw ''GET'' ''/v1/exchange'')))) = 500"
proof -
  let ?env = "sampleRoute 205 ''Reset Content'' ''''"
  let ?d = "\<lparr>rq_method = GET, rq_path = ''/v1/exchange'', rq_target = Public, rq_query = [],
             rq_headers = [], rq_body = None\<rparr>"
  let ?fw = "\<lparr>fw_url = \<lparr>url_location = ''https://public.example/v1/exchange'',
                     url_searchParams = []\<rparr>,
          fw_method = GET,
          fw_headers = [(''accept'', ''application/json''),
                        (''content-type'', ''application/json'')],
          fw_body = None\<rparr>"
  let ?r = "\<lparr>up_status = 205, up_statusText = ''Reset Content'', up_text = Inr ''''\<rparr>"
  have "safeParse (sampleRaw ''GET'' ''/v1/exchange'') = Inr ?d"
    by code_simp
  moreover have "forwardRequest ?env ?d = Inr ?fw"
    by (simp add: forwardRequest_def sampleRoute_def searchParams_def)
  moreover have "rt_fetch ?env ?fw = Inr ?r"
    by (simp add: sampleRoute_def)
  ultimately show ?thesis
    using POST_unmirrorable_status [of "sampleRaw ''GET'' ''/v1/exchange''" ?d ?env ?fw ?r "''''"]
    by (simp add: null_body_status_def)
qed

text \<open>
  Claim C1, at an upstream answer of 204 No Content to a valid request: the upstream request
  is issued and completes, and the route answers 500 with an error body instead of
  mirroring 204, since the response with a body cannot be built for that status.
\<close>

theorem POST_upstream_204_answers_500:
  "conforms (sampleRaw ''DELETE'' ''/v1/order'')
   \<and> length (snd (POST_handler (sampleRoute 204 ''No Content'' '''')
                   (Inr (sampleRaw ''DELETE'' ''/v1/order'')))) = 1
   \<and> http_status (fst (POST_handler (sampleRoute 204 ''No Content'' '''')
                        (Inr (sampleRaw ''DELETE'' ''/v1/order'')))) = 500
   \<and> json_body (fst (POST_handler (sampleRoute 204 ''No Content'' '''')
                      (Inr (sampleRaw ''DELETE'' ''/v1/order''))))
       = ErrorBody ''Response constructor: Invalid response status code 204''"
  by code_simp

text \<open>
  Claim C10, at upstream answers with an empty body and status 204 or 304: the route's
  answer carries no \<open>data\<close> field at all; it is the 500 error body.
\<close>

theorem POST_empty_body_null_status_has_no_data:
  "conforms (sampleRaw ''GET'' ''/v1/exchange'')
   \<and> json_body (fst (POST_handler (sampleRoute 204 ''No Content'' '''')
                      (Inr (sampleRaw ''GET'' ''/v1/exchange''))))
       = ErrorBody ''Response constructor: Invalid response status code 204''
   \<and> POST_handler (sampleRoute 304 ''Not Modified'' '''') (Inr (sampleRaw ''GET'' ''/v1/exchange''))
       = (\<lparr>http_status = 500,
           json_body = ErrorBody ''Response constructor: Invalid response status code 304''\<rparr>,
          [\<lparr>fw_url = \<lparr>url_location = ''https://public.example/v1/exchange'',
                       url_searchParams = []\<rparr>,
            fw_method = GET,
            fw_headers = [(''accept'', ''application/json''),
                          (''content-type'', ''application/json'')],
            fw_body = None\<rparr>])"
  by code_simp

end
